theory Spec2Isabelle
  imports Main "HOL-Library.Extended_Nat" "HOL-Library.AList"
begin

section \<open>JavaScript values\<close>

text \<open>
  The streamed deltas, the accumulator of \<open>mergeChunk\<close>, parsed tool arguments and
  context variables are untyped at run time (\<open>Record<string, any>\<close>). An object is
  its list of own properties in creation order (the engine never relies on the
  reordering of integer-like keys); numbers are integers.
\<close>

datatype jsval =
    JUndefined | JNull | JBool bool | JNum int | JStr string
  | JArr "jsval list" | JObj "(string \<times> jsval) list"

text \<open>Truthiness, as \<open>!x\<close>, \<open>x || y\<close> and \<open>if (x)\<close> test it.\<close>

fun truthy :: "jsval \<Rightarrow> bool" where
  "truthy JUndefined = False"
| "truthy JNull = False"
| "truthy (JBool b) = b"
| "truthy (JNum n) = (n \<noteq> 0)"
| "truthy (JStr s) = (s \<noteq> [])"
| "truthy (JArr xs) = True"
| "truthy (JObj kvs) = True"

definition js_or :: "jsval \<Rightarrow> jsval \<Rightarrow> jsval" where
  "js_or a b = (if truthy a then a else b)"

fun string_of_nat :: "nat \<Rightarrow> string" where
  "string_of_nat n =
     (if n < 10 then [''0123456789'' ! n]
      else string_of_nat (n div 10) @ [''0123456789'' ! (n mod 10)])"

declare string_of_nat.simps [simp del]

text \<open>The index-keyed own properties of an array or of a string.\<close>

definition indexed :: "'a list \<Rightarrow> (string \<times> 'a) list" where
  "indexed xs = zip (map string_of_nat [0..<length xs]) xs"

fun join :: "string \<Rightarrow> string list \<Rightarrow> string" where
  "join sep [] = []"
| "join sep [s] = s"
| "join sep (s # t # ts) = s @ sep @ join sep (t # ts)"

text \<open>\<open>String(v)\<close>, which also turns a value into a property key.\<close>

fun to_string :: "jsval \<Rightarrow> string" where
  "to_string JUndefined = ''undefined''"
| "to_string JNull = ''null''"
| "to_string (JBool b) = (if b then ''true'' else ''false'')"
| "to_string (JNum n) =
     (if n < 0 then CHR ''-'' # string_of_nat (nat (- n)) else string_of_nat (nat n))"
| "to_string (JStr s) = s"
| "to_string (JArr xs) =
     join '','' (map (\<lambda>x. if x = JUndefined \<or> x = JNull then [] else to_string x) xs)"
| "to_string (JObj kvs) = ''[object Object]''"

section \<open>Thrown values and the error classes of errors.ts\<close>

text \<open>
  A JavaScript \<open>throw\<close> carries any value. An \<open>Error\<close> instance is kept with its
  \<open>name\<close>, \<open>message\<close>, the \<open>code\<close> that the subclasses of errors.ts add (absent on
  a plain \<open>Error\<close>) and its \<open>cause\<close>; the \<open>stack\<close> text is not modelled. Any other
  thrown value is kept as the value it is.
\<close>

datatype thrown =
    ErrorObject (err_name: string) (err_message: string) (err_code: "string option")
      (err_cause: "thrown option")
  | Value jsval

definition Error :: "string \<Rightarrow> thrown" where
  "Error msg = ErrorObject ''Error'' msg None None"

definition TypeError :: "string \<Rightarrow> thrown" where
  "TypeError msg = ErrorObject ''TypeError'' msg None None"

definition ValidationError :: "string \<Rightarrow> thrown option \<Rightarrow> thrown" where
  "ValidationError msg c = ErrorObject ''ValidationError'' msg (Some ''VALIDATION_ERROR'') c"

definition APIError :: "string \<Rightarrow> thrown option \<Rightarrow> thrown" where
  "APIError msg c = ErrorObject ''APIError'' msg (Some ''API_ERROR'') c"

definition ToolExecutionError :: "string \<Rightarrow> thrown option \<Rightarrow> thrown" where
  "ToolExecutionError msg c =
     ErrorObject ''ToolExecutionError'' msg (Some ''TOOL_EXECUTION_ERROR'') c"

definition TimeoutError :: "string \<Rightarrow> thrown option \<Rightarrow> thrown" where
  "TimeoutError msg c = ErrorObject ''TimeoutError'' msg (Some ''TIMEOUT_ERROR'') c"

text \<open>\<open>error instanceof Error ? error : new Error(String(error))\<close>\<close>

fun as_Error :: "thrown \<Rightarrow> thrown" where
  "as_Error (ErrorObject n m c k) = ErrorObject n m c k"
| "as_Error (Value v) = Error (to_string v)"

text \<open>Sequencing of steps that may throw: the first \<open>Inl\<close> ends the sequence.\<close>

definition and_then :: "thrown + 'a \<Rightarrow> ('a \<Rightarrow> thrown + 'b) \<Rightarrow> thrown + 'b" where
  "and_then m f = (case m of Inl e \<Rightarrow> Inl e | Inr x \<Rightarrow> f x)"

text \<open>
  Property read \<open>v[key]\<close>: a \<open>TypeError\<close> on \<open>null\<close> and \<open>undefined\<close>, \<open>undefined\<close>
  for a property that is not there.
\<close>

fun get_prop :: "jsval \<Rightarrow> string \<Rightarrow> thrown + jsval" where
  "get_prop (JObj kvs) key = Inr (case map_of kvs key of Some v \<Rightarrow> v | None \<Rightarrow> JUndefined)"
| "get_prop (JArr xs) key =
     Inr (if key = ''length'' then JNum (int (length xs))
          else case map_of (indexed xs) key of Some v \<Rightarrow> v | None \<Rightarrow> JUndefined)"
| "get_prop (JStr s) key =
     Inr (if key = ''length'' then JNum (int (length s))
          else case map_of (indexed (map (\<lambda>c. JStr [c]) s)) key of
                 Some v \<Rightarrow> v | None \<Rightarrow> JUndefined)"
| "get_prop (JNum n) key = Inr JUndefined"
| "get_prop (JBool b) key = Inr JUndefined"
| "get_prop JNull key = Inl (TypeError ''Cannot read properties of null'')"
| "get_prop JUndefined key = Inl (TypeError ''Cannot read properties of undefined'')"

text \<open>
  Property write \<open>target[key] = v\<close>, returning the updated target. The sources are
  modules, hence strict code: a write to a primitive throws. An array that receives a
  property is continued as the object with the same index-keyed properties, which the
  engine cannot tell from the array (it only reads properties of, and enumerates, the
  values it writes to).
\<close>

fun set_prop :: "jsval \<Rightarrow> string \<Rightarrow> jsval \<Rightarrow> thrown + jsval" where
  "set_prop (JObj kvs) key v = Inr (JObj (AList.update key v kvs))"
| "set_prop (JArr xs) key v = Inr (JObj (AList.update key v (indexed xs)))"
| "set_prop JNull key v = Inl (TypeError ''Cannot set properties of null'')"
| "set_prop JUndefined key v = Inl (TypeError ''Cannot set properties of undefined'')"
| "set_prop (JStr s) key v = Inl (TypeError ''Cannot create property on string'')"
| "set_prop (JNum n) key v = Inl (TypeError ''Cannot create property on number'')"
| "set_prop (JBool b) key v = Inl (TypeError ''Cannot create property on boolean'')"

text \<open>\<open>delete v[key]\<close>, returning the updated value.\<close>

fun delete_prop :: "jsval \<Rightarrow> string \<Rightarrow> thrown + jsval" where
  "delete_prop (JObj kvs) key = Inr (JObj (AList.delete key kvs))"
| "delete_prop (JArr xs) key =
     Inr (if key \<in> set (map fst (indexed xs)) then JObj (AList.delete key (indexed xs))
          else JArr xs)"
| "delete_prop JNull key = Inl (TypeError ''Cannot convert undefined or null to object'')"
| "delete_prop JUndefined key = Inl (TypeError ''Cannot convert undefined or null to object'')"
| "delete_prop (JStr s) key = Inr (JStr s)"
| "delete_prop (JNum n) key = Inr (JNum n)"
| "delete_prop (JBool b) key = Inr (JBool b)"

text \<open>
  \<open>(error as Error).message\<close> inside a template literal. The cast does nothing at run
  time: the property is read off whatever was thrown. An \<open>Error\<close> gives its message; a
  thrown \<open>undefined\<close> or \<open>null\<close> makes the read itself throw a \<open>TypeError\<close>; any other
  value gives the text of its \<open>message\<close> property, \<open>undefined\<close> when it has none.
\<close>

fun message_text :: "thrown \<Rightarrow> thrown + string" where
  "message_text (ErrorObject n m c k) = Inr m"
| "message_text (Value v) = and_then (get_prop v ''message'') (\<lambda>m. Inr (to_string m))"

section \<open>retry (utils.ts)\<close>

text \<open>The retry configuration; its numbers are integers.\<close>

record retryConfig =
  maxRetries :: int
  initialDelay :: int
  maxDelay :: int

text \<open>
  What a call of \<open>retry\<close> does to the outside, in order: an invocation of the operation
  (numbered from 1), a \<open>logger.warn\<close> naming the attempt, \<open>maxRetries\<close> and the
  failure's message, and a \<open>setTimeout\<close> sleep of the given delay.
\<close>

datatype retry_event = Invoked nat | Warned nat int string | Slept int

datatype 'a loop_exit = Returned 'a | Exhausted "thrown option"

definition emit :: "'e list \<Rightarrow> 'r \<times> 'e list \<Rightarrow> 'r \<times> 'e list" where
  "emit evs p = (fst p, evs @ snd p)"

text \<open>
  The \<open>for\<close> loop of \<open>retry\<close>. The operation is a closure whose outcome may differ
  from one invocation to the next, so it is given as a function of the invocation
  number; the loop invokes it once per attempt. The loop either returns the operation's
  value or falls through with \<open>lastError\<close>.
\<close>

function retry_loop ::
  "(nat \<Rightarrow> thrown + 'a) \<Rightarrow> retryConfig \<Rightarrow> nat \<Rightarrow> int \<Rightarrow> thrown option
     \<Rightarrow> 'a loop_exit \<times> retry_event list" where
  "retry_loop operation config attempt delay lastError =
     (if int attempt \<le> maxRetries config then
        (case operation attempt of
           Inr v \<Rightarrow> (Returned v, [Invoked attempt])
         | Inl error \<Rightarrow>
             (if int attempt < maxRetries config then
                emit [Invoked attempt,
                      Warned attempt (maxRetries config) (err_message (as_Error error)),
                      Slept delay]
                  (retry_loop operation config (Suc attempt)
                     (min (delay * 2) (maxDelay config)) (Some (as_Error error)))
              else
                emit [Invoked attempt,
                      Warned attempt (maxRetries config) (err_message (as_Error error))]
                  (retry_loop operation config (Suc attempt) delay (Some (as_Error error)))))
      else (Exhausted lastError, []))"
  by pat_completeness auto
termination
  by (relation "measure (\<lambda>(operation, config, attempt, delay, lastError).
        nat (maxRetries config + 1 - int attempt))") auto

definition retry ::
  "(nat \<Rightarrow> thrown + 'a) \<Rightarrow> retryConfig \<Rightarrow> (thrown + 'a) \<times> retry_event list" where
  "retry operation config =
     (case retry_loop operation config 1 (initialDelay config) None of
        (Returned v, evs) \<Rightarrow> (Inr v, evs)
      | (Exhausted lastError, evs) \<Rightarrow>
          (Inl (case lastError of
                  None \<Rightarrow> Error ''Operation failed with unknown error''
                | Some e \<Rightarrow> e), evs))"

text \<open>The sleeps and the invocations of a trace, in order.\<close>

definition sleeps :: "retry_event list \<Rightarrow> int list" where
  "sleeps evs = concat (map (\<lambda>e. case e of Slept d \<Rightarrow> [d] | _ \<Rightarrow> []) evs)"

definition invocations :: "retry_event list \<Rightarrow> nat list" where
  "invocations evs = concat (map (\<lambda>e. case e of Invoked k \<Rightarrow> [k] | _ \<Rightarrow> []) evs)"

text \<open>
  The delay sequence as the specification writes it: \<open>d\<^sub>1 = initialDelay\<close>,
  \<open>d\<^sub>i\<^sub>+\<^sub>1 = min (2 d\<^sub>i) maxDelay\<close>; \<open>backoff d M i\<close> is \<open>d\<^bsub>i+1\<^esub>\<close>.
\<close>

fun backoff :: "int \<Rightarrow> int \<Rightarrow> nat \<Rightarrow> int" where
  "backoff d M 0 = d"
| "backoff d M (Suc i) = min (2 * backoff d M i) M"

text \<open>
  What the specification says of an attempt that fails: the operation is invoked, a
  warning names the attempt, and, if attempts remain, the current delay \<open>d\<^sub>k\<close> is slept.
\<close>

definition failed_attempt ::
  "(nat \<Rightarrow> thrown + 'a) \<Rightarrow> retryConfig \<Rightarrow> nat \<Rightarrow> retry_event list" where
  "failed_attempt operation config k =
     [Invoked k,
      Warned k (maxRetries config)
        (case operation k of Inl x \<Rightarrow> err_message (as_Error x) | Inr v \<Rightarrow> [])] @
     (if int k < maxRetries config
      then [Slept (backoff (initialDelay config) (maxDelay config) (k - 1))] else [])"

section \<open>mergeFields and mergeChunk (utils.ts)\<close>

text \<open>\<open>target[key] = (target[key] || "") + value\<close> for a string \<open>value\<close>.\<close>

definition concat_onto :: "jsval \<Rightarrow> string \<Rightarrow> string \<Rightarrow> thrown + jsval" where
  "concat_onto target key s =
     and_then (get_prop target key) (\<lambda>cur.
       set_prop target key (JStr ((if truthy cur then to_string cur else []) @ s)))"

text \<open>\<open>if (!target[key]) target[key] = {}\<close>\<close>

definition ensure_object :: "jsval \<Rightarrow> string \<Rightarrow> thrown + jsval" where
  "ensure_object target key =
     and_then (get_prop target key) (\<lambda>cur.
       if \<not> truthy cur then set_prop target key (JObj []) else Inr target)"

text \<open>
  The source mutates the object it reached through \<open>target[key]\<close> in place; with values
  instead of references the merged object is put back under the same key. Nothing is
  put back into a primitive: no object was reached through it.
\<close>

fun store_back :: "jsval \<Rightarrow> string \<Rightarrow> jsval \<Rightarrow> thrown + jsval" where
  "store_back (JObj kvs) key v = set_prop (JObj kvs) key v"
| "store_back (JArr xs) key v = set_prop (JArr xs) key v"
| "store_back target key v = Inr target"

text \<open>
  \<open>mergeFields\<close> returns the updated target. \<open>mergeEntry\<close> is the body of its loop for
  one \<open>[key, value]\<close> of \<open>Object.entries(source)\<close>; \<open>mergeEntries\<close> runs the loop over the
  properties of an object and \<open>mergeElems\<close> over the elements of an array, whose keys
  are the positions. \<open>typeof value === "object"\<close> holds of arrays as of objects.
\<close>

fun mergeFields :: "jsval \<Rightarrow> jsval \<Rightarrow> thrown + jsval"
and mergeEntries :: "jsval \<Rightarrow> (string \<times> jsval) list \<Rightarrow> thrown + jsval"
and mergeElems :: "jsval \<Rightarrow> nat \<Rightarrow> jsval list \<Rightarrow> thrown + jsval"
and mergeEntry :: "jsval \<Rightarrow> string \<Rightarrow> jsval \<Rightarrow> thrown + jsval" where
  "mergeFields target (JObj kvs) = mergeEntries target kvs"
| "mergeFields target (JArr xs) = mergeElems target 0 xs"
| "mergeFields target (JStr s) =
     fold (\<lambda>(key, c) r. and_then r (\<lambda>t. concat_onto t key [c])) (indexed s) (Inr target)"
| "mergeFields target (JNum n) = Inr target"
| "mergeFields target (JBool b) = Inr target"
| "mergeFields target JNull = Inl (TypeError ''Cannot convert undefined or null to object'')"
| "mergeFields target JUndefined =
     Inl (TypeError ''Cannot convert undefined or null to object'')"
| "mergeEntries target [] = Inr target"
| "mergeEntries target ((key, v) # rest) =
     (case mergeEntry target key v of
        Inl e \<Rightarrow> Inl e
      | Inr target' \<Rightarrow> mergeEntries target' rest)"
| "mergeElems target i [] = Inr target"
| "mergeElems target i (v # rest) =
     (case mergeEntry target (string_of_nat i) v of
        Inl e \<Rightarrow> Inl e
      | Inr target' \<Rightarrow> mergeElems target' (Suc i) rest)"
| "mergeEntry target key (JStr s) = concat_onto target key s"
| "mergeEntry target key (JObj kvs) =
     (case ensure_object target key of
        Inl e \<Rightarrow> Inl e
      | Inr t \<Rightarrow>
          (case get_prop t key of
             Inl e \<Rightarrow> Inl e
           | Inr sub \<Rightarrow>
               (case mergeFields sub (JObj kvs) of
                  Inl e \<Rightarrow> Inl e
                | Inr sub' \<Rightarrow> store_back t key sub')))"
| "mergeEntry target key (JArr xs) =
     (case ensure_object target key of
        Inl e \<Rightarrow> Inl e
      | Inr t \<Rightarrow>
          (case get_prop t key of
             Inl e \<Rightarrow> Inl e
           | Inr sub \<Rightarrow>
               (case mergeFields sub (JArr xs) of
                  Inl e \<Rightarrow> Inl e
                | Inr sub' \<Rightarrow> store_back t key sub')))"
| "mergeEntry target key JUndefined = Inr target"
| "mergeEntry target key JNull = Inr target"
| "mergeEntry target key (JBool b) = Inr target"
| "mergeEntry target key (JNum n) = Inr target"

text \<open>
  \<open>mergeChunk\<close> returns the updated \<open>finalResponse\<close>. The \<open>tool_calls\<close> of a delta is an
  array when it is there (the streaming wire shape), and \<open>toolCalls?.length > 0\<close> is
  read on that shape: a non-empty array.
\<close>

definition mergeChunk :: "jsval \<Rightarrow> jsval \<Rightarrow> thrown + jsval" where
  "mergeChunk finalResponse delta =
     and_then (delete_prop delta ''role'') (\<lambda>delta.
     and_then (mergeFields finalResponse delta) (\<lambda>finalResponse.
     and_then (get_prop delta ''tool_calls'') (\<lambda>toolCalls.
       case toolCalls of
         JArr (tc # others) \<Rightarrow>
           and_then (get_prop tc ''index'') (\<lambda>index.
           and_then (delete_prop tc ''index'') (\<lambda>tc.
           and_then (ensure_object finalResponse ''tool_calls'') (\<lambda>finalResponse.
           and_then (get_prop finalResponse ''tool_calls'') (\<lambda>calls.
           and_then (get_prop calls (to_string index)) (\<lambda>existing.
           and_then (get_prop tc ''id'') (\<lambda>id.
           and_then
             (if \<not> truthy existing
              then set_prop calls (to_string index)
                     (JObj [(''function'', JObj [(''arguments'', JStr []), (''name'', JStr [])]),
                            (''id'', js_or id (JStr [])),
                            (''type'', JStr [])])
              else if truthy id
              then and_then (set_prop existing ''id'' id) (store_back calls (to_string index))
              else Inr calls) (\<lambda>calls.
           and_then (delete_prop tc ''id'') (\<lambda>restToolCall.
           and_then (get_prop calls (to_string index)) (\<lambda>record.
           and_then (mergeFields record restToolCall) (\<lambda>record.
           and_then (store_back calls (to_string index) record) (\<lambda>calls.
             store_back finalResponse ''tool_calls'' calls)))))))))))
       | _ \<Rightarrow> Inr finalResponse)))"

section \<open>Data model (types.ts)\<close>

datatype MessageRole = System | User | Assistant | Tool

text \<open>
  A tool call \<open>{id, type, function: {name, arguments}}\<close>; the fields \<open>id\<close>, \<open>type\<close>,
  \<open>function\<close> and \<open>function.name\<close> are written \<open>call_id\<close>, \<open>call_type\<close>, \<open>func\<close> and
  \<open>fn_name\<close>.
\<close>

record FunctionCall =
  fn_name :: string
  arguments :: string

record ToolCall =
  call_id :: string
  call_type :: string
  func :: FunctionCall

record Message =
  role :: MessageRole
  content :: "string option"
  sender :: "string option"
  tool_call_id :: "string option"
  tool_calls :: "ToolCall list option"

datatype ToolChoice = ChoiceNone | ChoiceAuto | ChoiceFunction string

datatype instructions_text = Static string | Dynamic "unit \<Rightarrow> string"

type_synonym variables = "(string \<times> jsval) list"

text \<open>
  An agent (its \<open>functions\<close> are written \<open>funcs\<close>), its registered tools, and what a tool
  can hand back. A tool is a JavaScript function: \<open>func_name\<close> is its \<open>name\<close>,
  \<open>toString\<close> its source text, and \<open>invoke\<close> and \<open>writes\<close> are its body. The body is
  called with the argument object; \<open>invoke\<close> is what the call returns or throws. Of the
  objects of a run the body can reach one, the context object, when the engine has put
  it into the argument object under \<open>context_variables\<close>: the body then holds the
  object itself and can write to it. \<open>writes\<close> are the property writes the call makes to
  that object, in order, each a value assigned or (\<open>None\<close>) the property deleted; the
  argument object shows the body the content of the context object at the time of the
  call. What a tool does to an object that it holds by other means than its argument
  (a variable of its own scope) is not the engine's doing and is not modelled. A
  returned value is plain data, an agent descriptor, or an object with a text, an
  optional agent and a context-variable mapping.
\<close>

datatype agent =
    Agent (name: string) (model: string) (instructions: instructions_text)
      (funcs: "tool list") (toolChoice: "ToolChoice option") (parallelToolCalls: bool)
and tool =
    ToolFunction (func_name: string) (toString: string)
      (invoke: "jsval \<Rightarrow> thrown + tool_return")
      (writes: "jsval \<Rightarrow> (string \<times> jsval option) list")
and tool_return =
    Plain jsval
  | Handoff agent
  | ResultObject (result_value: string) (result_agent: "agent option")
      (result_context_variables: variables)

record 'a Result =
  success :: bool
  data :: "'a option"
  error :: "thrown option"

record ResponseData =
  messages :: "Message list"
  agent :: "agent option"
  contextVariables :: variables

text \<open>
  The request handed to \<open>client.createChatCompletion\<close>. Of a tool the manifest carries
  the name only (the rest of each entry is constant); the three tool fields are there
  only when the agent has tools.
\<close>

record request =
  req_model :: string
  req_messages :: "Message list"
  req_stream :: bool
  tools :: "string list option"
  tool_choice :: "ToolChoice option"
  parallel_tool_calls :: "bool option"

text \<open>
  A message is typed (\<open>Message\<close> of types.ts); in \<open>tool_calls\<close>, \<open>None\<close> stands for
  \<open>null\<close> and for an absent field, and \<open>Some []\<close> for the empty array, which is truthy.
  The payload of a successful completion is \<open>choices[0].message\<close> of a non-streaming
  response, or the \<open>choices[0].delta\<close> of each chunk of a streamed one. A failed result
  carries no payload.
\<close>

datatype completion = ChatCompletion Message | ChunkStream "jsval list"

text \<open>
  A \<open>Swarm\<close> instance: its client and its retry configuration. The client never throws
  (\<open>OpenAIClient.createChatCompletion\<close> turns every failure into a failed result) and
  answers a request by a result; the history in a request grows with every turn, so a
  function of the request also covers a provider that answers differently over time.
\<close>

record swarm =
  client :: "request \<Rightarrow> completion Result"
  retryConfig :: retryConfig

text \<open>The built-in \<open>JSON\<close> object, a parameter of the model.\<close>

record JSON =
  parse :: "string \<Rightarrow> thrown + jsval"
  stringify :: "tool_return \<Rightarrow> thrown + string option"

text \<open>
  \<open>JSON.stringify\<close> on the values of the model, for the concrete inputs: \<open>None\<close> is
  \<open>undefined\<close>; a property whose value has no JSON text is left out, and such an
  element of an array is written \<open>null\<close>.
\<close>

definition escapes :: "(char \<times> string) list" where
  "escapes =
     [(CHR 0x22, [CHR 0x5C, CHR 0x22]), (CHR 0x5C, [CHR 0x5C, CHR 0x5C]),
      (CHR 0x08, [CHR 0x5C, CHR ''b'']), (CHR 0x09, [CHR 0x5C, CHR ''t'']),
      (CHR 0x0A, [CHR 0x5C, CHR ''n'']), (CHR 0x0C, [CHR 0x5C, CHR ''f'']),
      (CHR 0x0D, [CHR 0x5C, CHR ''r''])]"

definition escape :: "char \<Rightarrow> string" where
  "escape c =
     (case map_of escapes c of
        Some s \<Rightarrow> s
      | None \<Rightarrow>
          if (of_char c :: nat) < 32
          then [CHR 0x5C, CHR ''u'', CHR ''0'', CHR ''0'',
                ''0123456789abcdef'' ! (of_char c div 16),
                ''0123456789abcdef'' ! (of_char c mod 16)]
          else [c])"

definition quote :: "string \<Rightarrow> string" where
  "quote s = [CHR 0x22] @ concat (map escape s) @ [CHR 0x22]"

fun JSON_stringify :: "jsval \<Rightarrow> string option"
and JSON_elements :: "jsval list \<Rightarrow> string list"
and JSON_properties :: "(string \<times> jsval) list \<Rightarrow> string list" where
  "JSON_stringify JUndefined = None"
| "JSON_stringify JNull = Some ''null''"
| "JSON_stringify (JBool b) = Some (if b then ''true'' else ''false'')"
| "JSON_stringify (JNum n) = Some (to_string (JNum n))"
| "JSON_stringify (JStr s) = Some (quote s)"
| "JSON_stringify (JArr xs) = Some (''['' @ join '','' (JSON_elements xs) @ '']'')"
| "JSON_stringify (JObj kvs) = Some (''{'' @ join '','' (JSON_properties kvs) @ ''}'')"
| "JSON_elements [] = []"
| "JSON_elements (x # xs) =
     (case JSON_stringify x of None \<Rightarrow> ''null'' | Some t \<Rightarrow> t) # JSON_elements xs"
| "JSON_properties [] = []"
| "JSON_properties ((key, v) # kvs) =
     (case JSON_stringify v of None \<Rightarrow> [] | Some t \<Rightarrow> [quote key @ '':'' @ t]) @
     JSON_properties kvs"

text \<open>
  The JavaScript value that a tool's return stands for. An agent descriptor is the
  object with the properties of \<open>AgentSchema\<close> in its order; a function (a tool, or
  instructions given as a function) has no JSON text, and an option that is not set is
  not there. The object of the third kind has the properties \<open>value\<close>, \<open>agent\<close> when
  there is one, and \<open>contextVariables\<close>.
\<close>

fun agent_object :: "agent \<Rightarrow> jsval" where
  "agent_object (Agent n m i fs tc p) =
     JObj ([(''name'', JStr n), (''model'', JStr m),
            (''instructions'', case i of Static s \<Rightarrow> JStr s | Dynamic f \<Rightarrow> JUndefined),
            (''functions'', JArr (map (\<lambda>f. JUndefined) fs))] @
           (case tc of
              None \<Rightarrow> []
            | Some ChoiceNone \<Rightarrow> [(''toolChoice'', JStr ''none'')]
            | Some ChoiceAuto \<Rightarrow> [(''toolChoice'', JStr ''auto'')]
            | Some (ChoiceFunction f) \<Rightarrow>
                [(''toolChoice'',
                  JObj [(''type'', JStr ''function''),
                        (''function'', JObj [(''name'', JStr f)])])]) @
           [(''parallelToolCalls'', JBool p)])"

fun returned_value :: "tool_return \<Rightarrow> jsval" where
  "returned_value (Plain v) = v"
| "returned_value (Handoff b) = agent_object b"
| "returned_value (ResultObject v b vars) =
     JObj ([(''value'', JStr v)] @
           (case b of None \<Rightarrow> [] | Some a \<Rightarrow> [(''agent'', agent_object a)]) @
           [(''contextVariables'', JObj vars)])"

text \<open>
  The options of \<open>run\<close>, after the defaults of the destructuring are filled in.
  \<open>maxTurns\<close> is only ever compared with a count of messages, \<open>count < maxTurns\<close>: a
  number stands for the number of counts that are below it, and \<open>Infinity\<close> for \<open>\<infinity>\<close>.
\<close>

record options =
  modelOverride :: "string option"
  stream :: bool
  maxTurns :: enat
  executeTools :: bool

text \<open>
  What a run does to the outside, in order: a call of \<open>client.createChatCompletion\<close>
  and a call of a tool with its argument object. The calls of the logger are left out.
\<close>

datatype event = Requested request | ToolInvoked string jsval

section \<open>parseArguments (utils.ts)\<close>

definition CTX_VARS_NAME :: string where
  "CTX_VARS_NAME = ''context_variables''"

definition parseArguments :: "JSON \<Rightarrow> string \<Rightarrow> thrown + jsval" where
  "parseArguments J argsStr =
     (case parse J argsStr of
        Inr v \<Rightarrow> Inr v
      | Inl err \<Rightarrow>
          Inl (ValidationError (''Failed to parse function arguments: '' @ argsStr)
                 (Some (as_Error err))))"

section \<open>The engine (core.ts)\<close>

text \<open>\<open>{...x}\<close> and \<open>Object.assign(target, source)\<close> on objects as property lists.\<close>

definition Object_assign :: "(string \<times> 'v) list \<Rightarrow> (string \<times> 'v) list \<Rightarrow> (string \<times> 'v) list" where
  "Object_assign target source = fold (\<lambda>(k, v). AList.update k v) source target"

definition spread :: "(string \<times> 'v) list \<Rightarrow> (string \<times> 'v) list" where
  "spread source = Object_assign [] source"

text \<open>\<open>s.includes(sub)\<close> on strings.\<close>

fun string_includes :: "string \<Rightarrow> string \<Rightarrow> bool" where
  "string_includes [] sub = (sub = [])"
| "string_includes (c # s) sub = (take (length sub) (c # s) = sub \<or> string_includes s sub)"

text \<open>
  The \<open>catch\<close> block that ends \<open>run\<close>, \<open>streamGenerator\<close> and \<open>runStream\<close>: whatever was
  thrown becomes a failed result whose code is \<open>UNKNOWN_ERROR\<close>.
\<close>

fun caught :: "thrown \<Rightarrow> 'a Result" where
  "caught (ErrorObject n m c k) =
     \<lparr>success = False, data = None,
      error = Some (ErrorObject n m (Some ''UNKNOWN_ERROR'') None)\<rparr>"
| "caught (Value v) =
     \<lparr>success = False, data = None,
      error = Some (ErrorObject ''UnknownError'' (to_string v) (Some ''UNKNOWN_ERROR'') None)\<rparr>"

definition system_message :: "string \<Rightarrow> Message" where
  "system_message body =
     \<lparr>role = System, content = Some body, sender = None, tool_call_id = None, tool_calls = None\<rparr>"

definition createParams :: "agent \<Rightarrow> Message list \<Rightarrow> string option \<Rightarrow> bool \<Rightarrow> request" where
  "createParams ag history override streaming =
     \<lparr>req_model = (case override of
                     None \<Rightarrow> model ag
                   | Some m \<Rightarrow> if m = [] then model ag else m),
      req_messages =
        system_message (case instructions ag of Static s \<Rightarrow> s | Dynamic f \<Rightarrow> f ()) # history,
      req_stream = streaming,
      tools = (if funcs ag = [] then None else Some (map func_name (funcs ag))),
      tool_choice = (if funcs ag = [] then None else toolChoice ag),
      parallel_tool_calls = (if funcs ag = [] then None else Some (parallelToolCalls ag))\<rparr>"

text \<open>
  \<open>getChatCompletion\<close>: the request goes through \<open>retry\<close>; every invocation that
  \<open>retry\<close> makes is a call of the client with the same request.
\<close>

definition getChatCompletion ::
  "swarm \<Rightarrow> agent \<Rightarrow> Message list \<Rightarrow> variables \<Rightarrow> string option \<Rightarrow> bool
     \<Rightarrow> (thrown + completion Result) \<times> event list" where
  "getChatCompletion sw ag history contextVars override streaming =
     (let params = createParams ag history override streaming;
          attempt = retry (\<lambda>k. Inr (client sw params)) (retryConfig sw)
      in (fst attempt, map (\<lambda>k. Requested params) (invocations (snd attempt))))"

definition tool_message :: "string option \<Rightarrow> string \<Rightarrow> Message" where
  "tool_message body call =
     \<lparr>role = Tool, content = body, sender = None, tool_call_id = Some call, tool_calls = None\<rparr>"

text \<open>The property writes of a tool, applied to the content of the object they go to.\<close>

definition apply_writes :: "(string \<times> jsval option) list \<Rightarrow> variables \<Rightarrow> variables" where
  "apply_writes ws vars =
     fold (\<lambda>(key, v). case v of Some x \<Rightarrow> AList.update key x | None \<Rightarrow> AList.delete key)
       ws vars"

text \<open>
  The \<open>try\<close> block of \<open>handleToolCalls\<close> for one call whose tool \<open>f\<close> was found: parse
  the arguments, put the context object under the reserved argument when the tool's
  source text mentions it, invoke the tool, and wrap what it returned in a tool
  message. \<open>contextVars\<close> is the content of the object \<open>contextVariables\<close>, which is the
  \<open>context\<close> of the run; the second component of the result is its content after the
  call, which differs when the tool was handed the object and wrote to it.
\<close>

definition execute_tool ::
  "JSON \<Rightarrow> tool \<Rightarrow> ToolCall \<Rightarrow> variables
     \<Rightarrow> ((thrown + Message) \<times> event list) \<times> variables" where
  "execute_tool J f toolCall contextVars =
     (case and_then (parseArguments J (arguments (func toolCall)))
             (\<lambda>args. if string_includes (toString f) CTX_VARS_NAME
                      then set_prop args CTX_VARS_NAME (JObj contextVars)
                      else Inr args) of
        Inl e \<Rightarrow> ((Inl e, []), contextVars)
      | Inr args \<Rightarrow>
          ((and_then (invoke f args)
              (\<lambda>result.
                 and_then (case result of Plain (JStr s) \<Rightarrow> Inr (Some s) | _ \<Rightarrow> stringify J result)
                   (\<lambda>body. Inr (tool_message body (call_id toolCall)))),
            [ToolInvoked (func_name f) args]),
           if string_includes (toString f) CTX_VARS_NAME
           then apply_writes (writes f args) contextVars
           else contextVars))"

text \<open>
  The body of the \<open>for\<close> loop of \<open>handleToolCalls\<close> for one call: it ends with the
  one message it pushes onto \<open>response.messages\<close>, or it throws. The message of the
  thrown error is built in the \<open>catch\<close> block, so a failure to build it is what the
  block throws.
\<close>

definition dispatch ::
  "JSON \<Rightarrow> agent \<Rightarrow> variables \<Rightarrow> ToolCall
     \<Rightarrow> ((thrown + Message) \<times> event list) \<times> variables" where
  "dispatch J ag contextVars toolCall =
     (case find (\<lambda>f. func_name f = fn_name (func toolCall)) (funcs ag) of
        None \<Rightarrow>
          ((Inr (tool_message
                   (Some (''Error: Tool '' @ fn_name (func toolCall) @ '' not found.''))
                   (call_id toolCall)),
            []),
           contextVars)
      | Some f \<Rightarrow>
          (case execute_tool J f toolCall contextVars of
             ((Inl e, evs), contextVars') \<Rightarrow>
               ((and_then (message_text e)
                   (\<lambda>reason.
                      Inl (ToolExecutionError
                             (''Failed to execute tool '' @ fn_name (func toolCall) @ '': '' @
                                reason)
                             (Some e))),
                 evs),
                contextVars')
           | ((Inr m, evs), contextVars') \<Rightarrow> ((Inr m, evs), contextVars')))"

text \<open>
  The \<open>for\<close> loop of \<open>handleToolCalls\<close> over the accumulator \<open>response\<close>; every call
  sees the context object as the calls before it left it.
\<close>

fun handleToolCalls_loop ::
  "JSON \<Rightarrow> ToolCall list \<Rightarrow> agent \<Rightarrow> variables \<Rightarrow> ResponseData
     \<Rightarrow> ((thrown + ResponseData) \<times> event list) \<times> variables" where
  "handleToolCalls_loop J [] ag contextVars response = ((Inr response, []), contextVars)"
| "handleToolCalls_loop J (toolCall # rest) ag contextVars response =
     (case dispatch J ag contextVars toolCall of
        ((Inl e, evs), contextVars') \<Rightarrow> ((Inl e, evs), contextVars')
      | ((Inr m, evs), contextVars') \<Rightarrow>
          (case handleToolCalls_loop J rest ag contextVars'
                  (response\<lparr>messages := messages response @ [m]\<rparr>) of
             (p, contextVars'') \<Rightarrow> (emit evs p, contextVars'')))"

text \<open>
  \<open>handleToolCalls\<close>: the accumulator takes a copy of the context variables at entry.
  The second component of the result is the content of the object \<open>contextVariables\<close>
  when the function returns or throws.
\<close>

definition handleToolCalls ::
  "JSON \<Rightarrow> ToolCall list \<Rightarrow> agent \<Rightarrow> variables
     \<Rightarrow> ((thrown + ResponseData Result) \<times> event list) \<times> variables" where
  "handleToolCalls J toolCalls ag contextVars =
     (case handleToolCalls_loop J toolCalls ag contextVars
             \<lparr>messages = [], agent = None, contextVariables = spread contextVars\<rparr> of
        ((Inl e, evs), contextVars') \<Rightarrow> ((Inl e, evs), contextVars')
      | ((Inr response, evs), contextVars') \<Rightarrow>
          ((Inr \<lparr>success = True, data = Some response, error = None\<rparr>, evs), contextVars'))"

text \<open>
  One pass through the body of the \<open>while\<close> loop of \<open>run\<close>: it ends the run with a
  result (a \<open>return\<close>, the \<open>break\<close>, or the \<open>catch\<close>) or goes on with the new active agent,
  history and context. \<open>Object.assign\<close> writes the accumulator's copy into the context
  object as the tools left it.
\<close>

datatype turn_end = Done "ResponseData Result" | Continue agent "Message list" variables

definition finished :: "nat \<Rightarrow> agent \<Rightarrow> Message list \<Rightarrow> variables \<Rightarrow> ResponseData Result" where
  "finished initLen activeAgent history contextVars =
     \<lparr>success = True,
      data = Some \<lparr>messages = drop initLen history, agent = Some activeAgent,
                   contextVariables = contextVars\<rparr>,
      error = None\<rparr>"

definition turn ::
  "JSON \<Rightarrow> swarm \<Rightarrow> options \<Rightarrow> nat \<Rightarrow> agent \<Rightarrow> Message list \<Rightarrow> variables
     \<Rightarrow> turn_end \<times> event list" where
  "turn J sw opts initLen activeAgent history contextVars =
     (case getChatCompletion sw activeAgent history contextVars (modelOverride opts) False of
        (Inl e, evs) \<Rightarrow> (Done (caught e), evs)
      | (Inr completion, evs) \<Rightarrow>
          if \<not> success completion
          then (Done \<lparr>success = False, data = None, error = error completion\<rparr>, evs)
          else
            (case data completion of
               None \<Rightarrow> (Done (caught (TypeError ''Cannot read properties of undefined'')), evs)
             | Some (ChunkStream deltas) \<Rightarrow>
                 (Done (caught (TypeError ''Cannot read properties of undefined'')), evs)
             | Some (ChatCompletion m) \<Rightarrow>
                 (let message = m\<lparr>sender := Some (name activeAgent)\<rparr>;
                      history = history @ [message]
                  in case tool_calls message of
                       None \<Rightarrow> (Done (finished initLen activeAgent history contextVars), evs)
                     | Some calls \<Rightarrow>
                         if \<not> executeTools opts
                         then (Done (finished initLen activeAgent history contextVars), evs)
                         else
                           emit evs
                             (case handleToolCalls J calls activeAgent contextVars of
                                ((Inl e, evs'), contextVars') \<Rightarrow> (Done (caught e), evs')
                              | ((Inr toolResult, evs'), contextVars') \<Rightarrow>
                                  (case data toolResult of
                                     None \<Rightarrow> (Done toolResult, evs')
                                   | Some d \<Rightarrow>
                                       if \<not> success toolResult then (Done toolResult, evs')
                                       else
                                         (Continue
                                            (case agent d of
                                               Some a \<Rightarrow> a
                                             | None \<Rightarrow> activeAgent)
                                            (history @ messages d)
                                            (Object_assign contextVars' (contextVariables d)),
                                          evs'))))))"

text \<open>
  The \<open>while\<close> loop of \<open>run\<close>. With \<open>maxTurns = Infinity\<close> it need not end, so it runs on
  fuel, one unit per pass; \<open>None\<close> says that the fuel did not suffice. The active agent
  of the loop condition is an agent descriptor, never \<open>null\<close>.
\<close>

fun run_loop ::
  "nat \<Rightarrow> JSON \<Rightarrow> swarm \<Rightarrow> options \<Rightarrow> nat \<Rightarrow> agent \<Rightarrow> Message list \<Rightarrow> variables
     \<Rightarrow> (ResponseData Result \<times> event list) option" where
  "run_loop 0 J sw opts initLen activeAgent history contextVars =
     (if enat (length history - initLen) < maxTurns opts then None
      else Some (finished initLen activeAgent history contextVars, []))"
| "run_loop (Suc fuel) J sw opts initLen activeAgent history contextVars =
     (if enat (length history - initLen) < maxTurns opts then
        (case turn J sw opts initLen activeAgent history contextVars of
           (Done result, evs) \<Rightarrow> Some (result, evs)
         | (Continue activeAgent' history' contextVars', evs) \<Rightarrow>
             map_option (emit evs)
               (run_loop fuel J sw opts initLen activeAgent' history' contextVars'))
      else Some (finished initLen activeAgent history contextVars, []))"

text \<open>
  The first \<open>next()\<close> on the generator of \<open>streamGenerator\<close>: the body runs from its
  entry to the first \<open>yield\<close> (the \<open>{delim: "start"}\<close> event) or, when the loop is not
  entered or the completion request fails, to a \<open>return\<close>.
\<close>

datatype 'r iterator_result = Yielded jsval | Returned_value 'r

definition streamGenerator_first_next ::
  "swarm \<Rightarrow> agent \<Rightarrow> Message list \<Rightarrow> variables \<Rightarrow> options
     \<Rightarrow> ResponseData Result iterator_result \<times> event list" where
  "streamGenerator_first_next sw ag msgs contextVars opts =
     (let activeAgent = ag;
          contextCopy = spread contextVars;
          history = msgs;
          initLen = length msgs
      in if enat (length history - initLen) < maxTurns opts then
           (case getChatCompletion sw activeAgent history contextCopy (modelOverride opts) True of
              (Inl e, evs) \<Rightarrow> (Returned_value (caught e), evs)
            | (Inr completion, evs) \<Rightarrow>
                if \<not> success completion
                then (Returned_value \<lparr>success = False, data = None, error = error completion\<rparr>,
                      evs)
                else (Yielded (JObj [(''delim'', JStr ''start'')]), evs))
         else (Returned_value (finished initLen activeAgent history contextCopy), []))"

text \<open>
  \<open>runStream\<close> calls \<open>next()\<close> once: \<open>result.done && result.value\<close> holds exactly of a
  returned result, and anything else gives the empty success.
\<close>

definition runStream ::
  "swarm \<Rightarrow> agent \<Rightarrow> Message list \<Rightarrow> variables \<Rightarrow> options
     \<Rightarrow> ResponseData Result \<times> event list" where
  "runStream sw ag msgs contextVars opts =
     (case streamGenerator_first_next sw ag msgs contextVars opts of
        (Returned_value result, evs) \<Rightarrow> (result, evs)
      | (Yielded v, evs) \<Rightarrow>
          (\<lparr>success = True,
            data = Some \<lparr>messages = [], agent = None, contextVariables = []\<rparr>,
            error = None\<rparr>, evs))"

definition run ::
  "nat \<Rightarrow> JSON \<Rightarrow> swarm \<Rightarrow> agent \<Rightarrow> Message list \<Rightarrow> variables \<Rightarrow> options
     \<Rightarrow> (ResponseData Result \<times> event list) option" where
  "run fuel J sw ag msgs contextVars opts =
     (if stream opts then Some (runStream sw ag msgs contextVars opts)
      else run_loop fuel J sw opts (length msgs) ag msgs (spread contextVars))"

text \<open>The messages a run returned, when it returned a result with a payload.\<close>

definition returned_messages ::
  "(ResponseData Result \<times> event list) option \<Rightarrow> Message list option" where
  "returned_messages r =
     (case r of
        None \<Rightarrow> None
      | Some (result, evs) \<Rightarrow> map_option messages (data result))"

section \<open>The run over a store\<close>

text \<open>
  Arrays and objects are references in the source: \<open>history.push\<close>, \<open>Object.assign\<close> and
  \<open>response.messages.push\<close> write through them. To see which arrays and objects a run
  writes to, the run is written a second time over a store of cells, addressed by their
  position; \<open>[...messages]\<close>, \<open>{...contextVariables}\<close> and the literals of
  \<open>handleToolCalls\<close> allocate a new cell at the end of the store. The caller hands in the
  addresses of its message array and of its context-variable object. Messages are
  values inside their array. A tool is handed the object at the address \<open>c\<close> that
  \<open>handleToolCalls\<close> was called with, and what the tool writes goes to that cell.
\<close>

datatype cell = MessageArray "Message list" | VariablesObject variables

type_synonym store = "cell list"

definition array_at :: "store \<Rightarrow> nat \<Rightarrow> Message list" where
  "array_at h a =
     (if a < length h then (case h ! a of MessageArray ms \<Rightarrow> ms | VariablesObject vs \<Rightarrow> [])
      else [])"

definition object_at :: "store \<Rightarrow> nat \<Rightarrow> variables" where
  "object_at h a =
     (if a < length h then (case h ! a of VariablesObject vs \<Rightarrow> vs | MessageArray ms \<Rightarrow> [])
      else [])"

definition alloc :: "store \<Rightarrow> cell \<Rightarrow> nat \<times> store" where
  "alloc h c = (length h, h @ [c])"

text \<open>The accumulator of \<open>handleToolCalls\<close>, its array and its object by address.\<close>

record response_ref =
  messages_ref :: nat
  agent_ref :: "agent option"
  contextVariables_ref :: nat

definition deref :: "store \<Rightarrow> response_ref \<Rightarrow> ResponseData" where
  "deref h r =
     \<lparr>messages = array_at h (messages_ref r), agent = agent_ref r,
      contextVariables = object_at h (contextVariables_ref r)\<rparr>"

definition deref_result :: "store \<Rightarrow> response_ref Result \<Rightarrow> ResponseData Result" where
  "deref_result h r =
     \<lparr>success = success r, data = map_option (deref h) (data r), error = error r\<rparr>"

text \<open>
  The loop body of \<open>handleToolCalls\<close> for one call, with the object \<open>contextVariables\<close>
  at address \<open>c\<close>: the call reads the cell, and the cell holds afterwards what the tool
  left in the object.
\<close>

definition dispatch_st ::
  "JSON \<Rightarrow> agent \<Rightarrow> nat \<Rightarrow> ToolCall \<Rightarrow> store
     \<Rightarrow> ((thrown + Message) \<times> event list) \<times> store" where
  "dispatch_st J ag c toolCall h =
     (case dispatch J ag (object_at h c) toolCall of
        (p, contextVars') \<Rightarrow> (p, h[c := VariablesObject contextVars']))"

fun handleToolCalls_loop_st ::
  "JSON \<Rightarrow> ToolCall list \<Rightarrow> agent \<Rightarrow> nat \<Rightarrow> response_ref \<Rightarrow> store
     \<Rightarrow> ((thrown + response_ref) \<times> event list) \<times> store" where
  "handleToolCalls_loop_st J [] ag c response h = ((Inr response, []), h)"
| "handleToolCalls_loop_st J (toolCall # rest) ag c response h =
     (case dispatch_st J ag c toolCall h of
        ((Inl e, evs), h1) \<Rightarrow> ((Inl e, evs), h1)
      | ((Inr m, evs), h1) \<Rightarrow>
          (case handleToolCalls_loop_st J rest ag c response
                  (h1[messages_ref response :=
                        MessageArray (array_at h1 (messages_ref response) @ [m])]) of
             (p, h') \<Rightarrow> (emit evs p, h')))"

definition handleToolCalls_st ::
  "JSON \<Rightarrow> ToolCall list \<Rightarrow> agent \<Rightarrow> nat \<Rightarrow> store
     \<Rightarrow> ((thrown + response_ref Result) \<times> event list) \<times> store" where
  "handleToolCalls_st J toolCalls ag c h =
     (case alloc h (MessageArray []) of
        (rm, h1) \<Rightarrow>
          (case alloc h1 (VariablesObject (spread (object_at h1 c))) of
             (rc, h2) \<Rightarrow>
               (case handleToolCalls_loop_st J toolCalls ag c
                       \<lparr>messages_ref = rm, agent_ref = None, contextVariables_ref = rc\<rparr> h2 of
                  ((Inl e, evs), h') \<Rightarrow> ((Inl e, evs), h')
                | ((Inr response, evs), h') \<Rightarrow>
                    ((Inr \<lparr>success = True, data = Some response, error = None\<rparr>, evs), h'))))"

text \<open>
  One pass through the loop body of \<open>run\<close>, with \<open>history\<close> at address \<open>a\<close> and \<open>context\<close>
  at address \<open>c\<close>. A result is given with its arrays and objects read out of the store.
\<close>

datatype turn_end_st = Ended "ResponseData Result" | Goes_on agent

definition turn_st ::
  "JSON \<Rightarrow> swarm \<Rightarrow> options \<Rightarrow> nat \<Rightarrow> agent \<Rightarrow> nat \<Rightarrow> nat \<Rightarrow> store
     \<Rightarrow> (turn_end_st \<times> event list) \<times> store" where
  "turn_st J sw opts initLen activeAgent a c h =
     (case getChatCompletion sw activeAgent (array_at h a) (object_at h c)
             (modelOverride opts) False of
        (Inl e, evs) \<Rightarrow> ((Ended (caught e), evs), h)
      | (Inr completion, evs) \<Rightarrow>
          if \<not> success completion
          then ((Ended \<lparr>success = False, data = None, error = error completion\<rparr>, evs), h)
          else
            (case data completion of
               None \<Rightarrow>
                 ((Ended (caught (TypeError ''Cannot read properties of undefined'')), evs), h)
             | Some (ChunkStream deltas) \<Rightarrow>
                 ((Ended (caught (TypeError ''Cannot read properties of undefined'')), evs), h)
             | Some (ChatCompletion m) \<Rightarrow>
                 (let message = m\<lparr>sender := Some (name activeAgent)\<rparr>;
                      h = h[a := MessageArray (array_at h a @ [message])]
                  in case tool_calls message of
                       None \<Rightarrow>
                         ((Ended (finished initLen activeAgent (array_at h a) (object_at h c)),
                           evs), h)
                     | Some calls \<Rightarrow>
                         if \<not> executeTools opts
                         then ((Ended (finished initLen activeAgent (array_at h a)
                                         (object_at h c)), evs), h)
                         else
                           (case handleToolCalls_st J calls activeAgent c h of
                              ((Inl e, evs'), h') \<Rightarrow> ((Ended (caught e), evs @ evs'), h')
                            | ((Inr toolResult, evs'), h') \<Rightarrow>
                                (case data toolResult of
                                   None \<Rightarrow>
                                     ((Ended (deref_result h' toolResult), evs @ evs'), h')
                                 | Some d \<Rightarrow>
                                     if \<not> success toolResult
                                     then ((Ended (deref_result h' toolResult), evs @ evs'),
                                           h')
                                     else
                                       ((Goes_on (case agent_ref d of
                                                    Some b \<Rightarrow> b
                                                  | None \<Rightarrow> activeAgent),
                                         evs @ evs'),
                                        (h'[a := MessageArray
                                                   (array_at h' a @
                                                    array_at h' (messages_ref d))])
                                          [c := VariablesObject
                                                  (Object_assign (object_at h' c)
                                                     (object_at h'
                                                        (contextVariables_ref d)))]))))))"

fun run_loop_st ::
  "nat \<Rightarrow> JSON \<Rightarrow> swarm \<Rightarrow> options \<Rightarrow> nat \<Rightarrow> agent \<Rightarrow> nat \<Rightarrow> nat \<Rightarrow> store
     \<Rightarrow> (ResponseData Result \<times> event list) option \<times> store" where
  "run_loop_st 0 J sw opts initLen activeAgent a c h =
     (if enat (length (array_at h a) - initLen) < maxTurns opts then (None, h)
      else (Some (finished initLen activeAgent (array_at h a) (object_at h c), []), h))"
| "run_loop_st (Suc fuel) J sw opts initLen activeAgent a c h =
     (if enat (length (array_at h a) - initLen) < maxTurns opts then
        (case turn_st J sw opts initLen activeAgent a c h of
           ((Ended result, evs), h') \<Rightarrow> (Some (result, evs), h')
         | ((Goes_on activeAgent', evs), h') \<Rightarrow>
             (case run_loop_st fuel J sw opts initLen activeAgent' a c h' of
                (r, h'') \<Rightarrow> (map_option (emit evs) r, h'')))
      else (Some (finished initLen activeAgent (array_at h a) (object_at h c), []), h))"

text \<open>
  The first \<open>next()\<close> of the generator and \<open>runStream\<close> over the store: the generator
  takes its two copies, then requests the first completion.
\<close>

definition streamGenerator_first_next_st ::
  "swarm \<Rightarrow> agent \<Rightarrow> nat \<Rightarrow> nat \<Rightarrow> options \<Rightarrow> store
     \<Rightarrow> (ResponseData Result iterator_result \<times> event list) \<times> store" where
  "streamGenerator_first_next_st sw ag pm pc opts h =
     (case alloc h (VariablesObject (spread (object_at h pc))) of
        (c, h1) \<Rightarrow>
          (case alloc h1 (MessageArray (array_at h1 pm)) of
             (a, h2) \<Rightarrow>
               (let activeAgent = ag; initLen = length (array_at h2 pm)
                in if enat (length (array_at h2 a) - initLen) < maxTurns opts then
                     (case getChatCompletion sw activeAgent (array_at h2 a) (object_at h2 c)
                             (modelOverride opts) True of
                        (Inl e, evs) \<Rightarrow> ((Returned_value (caught e), evs), h2)
                      | (Inr completion, evs) \<Rightarrow>
                          if \<not> success completion
                          then ((Returned_value
                                   \<lparr>success = False, data = None, error = error completion\<rparr>,
                                 evs), h2)
                          else ((Yielded (JObj [(''delim'', JStr ''start'')]), evs), h2))
                   else ((Returned_value
                            (finished initLen activeAgent (array_at h2 a) (object_at h2 c)),
                          []), h2))))"

definition runStream_st ::
  "swarm \<Rightarrow> agent \<Rightarrow> nat \<Rightarrow> nat \<Rightarrow> options \<Rightarrow> store
     \<Rightarrow> (ResponseData Result \<times> event list) \<times> store" where
  "runStream_st sw ag pm pc opts h =
     (case streamGenerator_first_next_st sw ag pm pc opts h of
        ((Returned_value result, evs), h') \<Rightarrow> ((result, evs), h')
      | ((Yielded v, evs), h') \<Rightarrow>
          ((\<lparr>success = True,
             data = Some \<lparr>messages = [], agent = None, contextVariables = []\<rparr>,
             error = None\<rparr>, evs), h'))"

text \<open>
  \<open>run\<close> over the store, called with the addresses \<open>pm\<close> of the caller's message array
  and \<open>pc\<close> of the caller's context-variable object.
\<close>

definition run_st ::
  "nat \<Rightarrow> JSON \<Rightarrow> swarm \<Rightarrow> agent \<Rightarrow> nat \<Rightarrow> nat \<Rightarrow> options \<Rightarrow> store
     \<Rightarrow> (ResponseData Result \<times> event list) option \<times> store" where
  "run_st fuel J sw ag pm pc opts h =
     (if stream opts then
        (case runStream_st sw ag pm pc opts h of (r, h') \<Rightarrow> (Some r, h'))
      else
        (case alloc h (VariablesObject (spread (object_at h pc))) of
           (c, h1) \<Rightarrow>
             (case alloc h1 (MessageArray (array_at h1 pm)) of
                (a, h2) \<Rightarrow>
                  run_loop_st fuel J sw opts (length (array_at h2 pm)) ag a c h2)))"

section \<open>Concrete inputs\<close>

text \<open>
  The scenarios of the specification: agents and their tools, a user message, and
  providers given by what they answer to a request. Of \<open>JSON.parse\<close> the scenarios need
  its results on two payloads: \<open>{}\<close> is the empty object and \<open>not json\<close> is
  rejected with a \<open>SyntaxError\<close>; no other payload occurs, and \<open>parse\<close> is left
  rejecting them.
\<close>

definition example_JSON :: JSON where
  "example_JSON =
     \<lparr>parse = (\<lambda>s. if s = ''{}'' then Inr (JObj [])
                    else Inl (ErrorObject ''SyntaxError'' ''Unexpected token'' None None)),
      stringify = (\<lambda>r. Inr (JSON_stringify (returned_value r)))\<rparr>"

definition agent_B :: agent where
  "agent_B = Agent ''B'' ''gpt-4o'' (Static ''You are B.'') [] None False"

definition lookup_tool :: tool where
  "lookup_tool = ToolFunction ''lookup'' ''async function lookup(args) {}''
                   (\<lambda>args. Inr (Handoff agent_B)) (\<lambda>args. [])"

definition remember_tool :: tool where
  "remember_tool = ToolFunction ''remember'' ''async function remember(args) {}''
                     (\<lambda>args. Inr (ResultObject ''noted'' None [(''user'', JStr ''Ada'')]))
                     (\<lambda>args. [])"

definition failing_tool :: tool where
  "failing_tool = ToolFunction ''explode'' ''async function explode(args) {}''
                    (\<lambda>args. Inl (Error ''kaput'')) (\<lambda>args. [])"

text \<open>
  A tool that takes the context object and writes to it, and an agent \<open>W\<close> that has it:
  \<open>note\<close> sets the property \<open>j\<close> of the object to 3 and returns a text.
\<close>

definition note_tool :: tool where
  "note_tool = ToolFunction ''note'' ''(args) => { args.context_variables.j = 3 }''
                 (\<lambda>args. Inr (Plain (JStr ''ok''))) (\<lambda>args. [(''j'', Some (JNum 3))])"

definition agent_W :: agent where
  "agent_W = Agent ''W'' ''gpt-4o'' (Static ''You are W.'') [note_tool] (Some ChoiceAuto) False"

definition agent_A :: agent where
  "agent_A = Agent ''A'' ''gpt-4o'' (Static ''You are A.'')
               [lookup_tool, remember_tool, failing_tool] (Some ChoiceAuto) False"

definition user_hi :: Message where
  "user_hi = \<lparr>role = User, content = Some ''hi'', sender = None, tool_call_id = None,
              tool_calls = None\<rparr>"

definition assistant_hello :: Message where
  "assistant_hello = \<lparr>role = Assistant, content = Some ''hello'', sender = None,
                      tool_call_id = None, tool_calls = None\<rparr>"

definition tool_call :: "string \<Rightarrow> string \<Rightarrow> string \<Rightarrow> ToolCall" where
  "tool_call i f a = \<lparr>call_id = i, call_type = ''function'',
                      func = \<lparr>fn_name = f, arguments = a\<rparr>\<rparr>"

definition assistant_calls :: "ToolCall list \<Rightarrow> Message" where
  "assistant_calls cs = \<lparr>role = Assistant, content = None, sender = None, tool_call_id = None,
                         tool_calls = Some cs\<rparr>"

definition completed :: "Message \<Rightarrow> completion Result" where
  "completed m = \<lparr>success = True, data = Some (ChatCompletion m), error = None\<rparr>"

text \<open>
  A provider that answers the first request of a run (system message and the user
  message) with the message \<open>first\<close> and every later request with \<open>hello\<close>; asked
  to stream, it sends \<open>hello\<close> as one delta.
\<close>

definition provider :: "Message \<Rightarrow> request \<Rightarrow> completion Result" where
  "provider first r =
     (if req_stream r
      then \<lparr>success = True, data = Some (ChunkStream [JObj [(''content'', JStr ''hello'')]]),
            error = None\<rparr>
      else if length (req_messages r) = 2 then completed first
      else completed assistant_hello)"

definition example_swarm :: "Message \<Rightarrow> swarm" where
  "example_swarm first =
     \<lparr>client = provider first,
      retryConfig = \<lparr>maxRetries = 3, initialDelay = 1000, maxDelay = 10000\<rparr>\<rparr>"

definition example_options :: "enat \<Rightarrow> options" where
  "example_options n = \<lparr>modelOverride = None, stream = False, maxTurns = n, executeTools = True\<rparr>"

text \<open>
  The accumulator \<open>streamGenerator\<close> starts a turn with, the two chunks of the
  \<open>mergeChunk\<close> scenario, and a chunk that opens a second tool call (index 1).
\<close>

definition initial_message :: jsval where
  "initial_message =
     JObj [(''content'', JStr []), (''sender'', JStr ''A''), (''role'', JStr ''assistant''),
           (''tool_calls'', JNull)]"

definition chunk_1 :: jsval where
  "chunk_1 =
     JObj [(''tool_calls'',
            JArr [JObj [(''index'', JNum 0), (''id'', JStr ''abc''),
                        (''function'', JObj [(''arguments'', JStr [])])]])]"

definition chunk_2 :: jsval where
  "chunk_2 =
     JObj [(''tool_calls'',
            JArr [JObj [(''index'', JNum 0),
                        (''function'', JObj [(''arguments'', JStr ''{}'')])]])]"

definition chunk_3 :: jsval where
  "chunk_3 =
     JObj [(''tool_calls'',
            JArr [JObj [(''index'', JNum 1), (''id'', JStr ''xyz''),
                        (''function'', JObj [(''arguments'', JStr [])])]])]"

section \<open>Properties of retry\<close>

lemma fst_emit [simp]: "fst (emit evs p) = fst p"
  by (simp add: emit_def)

lemma snd_emit [simp]: "snd (emit evs p) = evs @ snd p"
  by (simp add: emit_def)

lemma sleeps_append [simp]: "sleeps (xs @ ys) = sleeps xs @ sleeps ys"
  by (simp add: sleeps_def)

lemma invocations_append [simp]: "invocations (xs @ ys) = invocations xs @ invocations ys"
  by (simp add: invocations_def)

lemma sleeps_simps [simp]:
  "sleeps [] = []"
  "sleeps (Slept d # evs) = d # sleeps evs"
  "sleeps (Invoked k # evs) = sleeps evs"
  "sleeps (Warned k n m # evs) = sleeps evs"
  by (simp_all add: sleeps_def)

lemma invocations_simps [simp]:
  "invocations [] = []"
  "invocations (Slept d # evs) = invocations evs"
  "invocations (Invoked k # evs) = k # invocations evs"
  "invocations (Warned k n m # evs) = invocations evs"
  by (simp_all add: invocations_def)

declare retry_loop.simps [simp del]

lemma backoff_shift: "backoff (min (d * 2) M) M i = backoff d M (Suc i)"
  by (induction i) (simp_all add: mult.commute)

lemma map_upt_shift: "0 < n \<Longrightarrow> map f [0..<n] = f 0 # map (\<lambda>i. f (Suc i)) [0..<n - 1]"
  by (cases n) (simp_all add: upt_conv_Cons map_Suc_upt [symmetric] del: upt_Suc)

text \<open>
  With an operation that fails at every invocation, the loop sleeps for the delays of
  the specification's sequence, once per attempt that is not the last.
\<close>

lemma retry_loop_sleeps:
  "\<forall>k. \<exists>x. operation k = Inl x \<Longrightarrow>
   sleeps (snd (retry_loop operation config attempt delay lastError)) =
     map (backoff delay (maxDelay config)) [0..<nat (maxRetries config - int attempt)]"
proof (induction operation config attempt delay lastError rule: retry_loop.induct)
  case (1 operation config attempt delay lastError)
  show ?case
  proof (cases "int attempt \<le> maxRetries config")
    case False
    then show ?thesis
      by (simp add: retry_loop.simps [of operation config attempt])
  next
    case le: True
    from "1.prems" obtain x where x: "operation attempt = Inl x" by blast
    show ?thesis
    proof (cases "int attempt < maxRetries config")
      case True
      have n: "nat (maxRetries config - int attempt) - Suc 0 =
               nat (maxRetries config - (1 + int attempt))"
        by arith
      have pos: "0 < nat (maxRetries config - int attempt)" using True by simp
      from "1.IH"(1) [OF le x True "1.prems"]
      show ?thesis using le x True
        by (simp add: retry_loop.simps [of operation config attempt] backoff_shift
              map_upt_shift [OF pos] n del: backoff.simps(2))
    next
      case False
      from "1.IH"(2) [OF le x False "1.prems"]
      show ?thesis using le x False
        by (simp add: retry_loop.simps [of operation config attempt])
    qed
  qed
qed

lemma retry_loop_invocations:
  "\<forall>k. \<exists>x. operation k = Inl x \<Longrightarrow>
   invocations (snd (retry_loop operation config attempt delay lastError)) =
     [attempt..<nat (maxRetries config + 1)]"
proof (induction operation config attempt delay lastError rule: retry_loop.induct)
  case (1 operation config attempt delay lastError)
  show ?case
  proof (cases "int attempt \<le> maxRetries config")
    case False
    then show ?thesis
      by (simp add: retry_loop.simps [of operation config attempt])
  next
    case le: True
    from "1.prems" obtain x where x: "operation attempt = Inl x" by blast
    have lt: "attempt < nat (maxRetries config + 1)" using le by arith
    show ?thesis
    proof (cases "int attempt < maxRetries config")
      case True
      from "1.IH"(1) [OF le x True "1.prems"]
      show ?thesis using le x True
        by (simp add: retry_loop.simps [of operation config attempt] upt_conv_Cons [OF lt])
    next
      case False
      from "1.IH"(2) [OF le x False "1.prems"]
      show ?thesis using le x False
        by (simp add: retry_loop.simps [of operation config attempt] upt_conv_Cons [OF lt])
    qed
  qed
qed

text \<open>
  With an operation that fails at every invocation, the whole trace of the loop: attempt
  by attempt the invocation, the warning and, but for the last attempt, the sleep.
\<close>

lemma retry_loop_trace:
  "\<forall>k. \<exists>x. operation k = Inl x \<Longrightarrow>
   snd (retry_loop operation config attempt delay lastError) =
     concat (map (\<lambda>k. [Invoked k,
                        Warned k (maxRetries config)
                          (case operation k of Inl x \<Rightarrow> err_message (as_Error x) | Inr v \<Rightarrow> [])] @
                       (if int k < maxRetries config
                        then [Slept (backoff delay (maxDelay config) (k - attempt))] else []))
               [attempt..<nat (maxRetries config + 1)])"
proof (induction operation config attempt delay lastError rule: retry_loop.induct)
  case (1 operation config attempt delay lastError)
  show ?case
  proof (cases "int attempt \<le> maxRetries config")
    case False
    then show ?thesis
      by (simp add: retry_loop.simps [of operation config attempt])
  next
    case le: True
    from "1.prems" obtain x where x: "operation attempt = Inl x" by blast
    have lt: "attempt < nat (maxRetries config + 1)" using le by arith
    show ?thesis
    proof (cases "int attempt < maxRetries config")
      case True
      have shift: "\<And>k. k \<in> set [Suc attempt..<nat (maxRetries config + 1)] \<Longrightarrow>
                 backoff (min (delay * 2) (maxDelay config)) (maxDelay config) (k - Suc attempt) =
                 backoff delay (maxDelay config) (k - attempt)"
      proof -
        fix k assume "k \<in> set [Suc attempt..<nat (maxRetries config + 1)]"
        then have "k - attempt = Suc (k - Suc attempt)" by auto
        then show "backoff (min (delay * 2) (maxDelay config)) (maxDelay config) (k - Suc attempt) =
                 backoff delay (maxDelay config) (k - attempt)"
          by (simp only: backoff_shift)
      qed
      have eq: "map (\<lambda>k. [Invoked k,
                        Warned k (maxRetries config)
                          (case operation k of Inl x \<Rightarrow> err_message (as_Error x) | Inr v \<Rightarrow> [])] @
                       (if int k < maxRetries config
                        then [Slept (backoff (min (delay * 2) (maxDelay config)) (maxDelay config)
                                       (k - Suc attempt))] else []))
               [Suc attempt..<nat (maxRetries config + 1)] =
             map (\<lambda>k. [Invoked k,
                        Warned k (maxRetries config)
                          (case operation k of Inl x \<Rightarrow> err_message (as_Error x) | Inr v \<Rightarrow> [])] @
                       (if int k < maxRetries config
                        then [Slept (backoff delay (maxDelay config) (k - attempt))] else []))
               [Suc attempt..<nat (maxRetries config + 1)]"
        by (rule map_cong [OF refl]) (simp only: shift)
      from "1.IH"(1) [OF le x True "1.prems", unfolded eq]
      show ?thesis using le x True
        by (simp add: retry_loop.simps [of operation config attempt] upt_conv_Cons [OF lt]
              del: backoff.simps(2))
    next
      case False
      from "1.IH"(2) [OF le x False "1.prems"]
      show ?thesis using le x False
        by (simp add: retry_loop.simps [of operation config attempt] upt_conv_Cons [OF lt])
    qed
  qed
qed

text \<open>
  When the loop falls through, the last thing it did was the invocation and the warning
  of attempt \<open>maxRetries\<close>, and \<open>lastError\<close> is that attempt's failure.
\<close>

lemma retry_loop_final_events:
  "int attempt \<le> maxRetries config \<Longrightarrow>
   fst (retry_loop operation config attempt delay lastError) = Exhausted e \<Longrightarrow>
   \<exists>x pre. operation (nat (maxRetries config)) = Inl x \<and> e = Some (as_Error x) \<and>
     snd (retry_loop operation config attempt delay lastError) =
       pre @ [Invoked (nat (maxRetries config)),
              Warned (nat (maxRetries config)) (maxRetries config) (err_message (as_Error x))]"
proof (induction operation config attempt delay lastError rule: retry_loop.induct)
  case (1 operation config attempt delay lastError)
  note le = "1.prems"(1)
  from "1.prems" obtain x where x: "operation attempt = Inl x"
    by (cases "operation attempt") (simp_all add: retry_loop.simps [of operation config attempt])
  show ?case
  proof (cases "int attempt < maxRetries config")
    case True
    have ex: "fst (retry_loop operation config (Suc attempt) (min (delay * 2) (maxDelay config))
                  (Some (as_Error x))) = Exhausted e"
      using "1.prems"(2) le x True by (simp add: retry_loop.simps [of operation config attempt])
    from "1.IH"(1) [OF le x True _ ex] True
    obtain y pre where "operation (nat (maxRetries config)) = Inl y" "e = Some (as_Error y)"
      "snd (retry_loop operation config (Suc attempt) (min (delay * 2) (maxDelay config))
                  (Some (as_Error x))) = pre @ [Invoked (nat (maxRetries config)),
              Warned (nat (maxRetries config)) (maxRetries config) (err_message (as_Error y))]"
      by auto
    then show ?thesis using le x True
      by (simp add: retry_loop.simps [of operation config attempt])
  next
    case False
    then have eq: "attempt = nat (maxRetries config)" using le by arith
    have nxt: "retry_loop operation config (Suc attempt) delay (Some (as_Error x)) =
               (Exhausted (Some (as_Error x)), [])"
      using False by (simp add: retry_loop.simps [of operation config "Suc attempt"])
    have "e = Some (as_Error x)"
      using "1.prems"(2) le x False nxt
      by (simp add: retry_loop.simps [of operation config attempt])
    moreover have "snd (retry_loop operation config attempt delay lastError) =
       [] @ [Invoked (nat (maxRetries config)),
              Warned (nat (maxRetries config)) (maxRetries config) (err_message (as_Error x))]"
      using le x False nxt eq [symmetric]
      by (simp add: retry_loop.simps [of operation config attempt])
    ultimately show ?thesis using x eq by blast
  qed
qed

lemma retry_loop_exhausted:
  "\<forall>k. \<exists>x. operation k = Inl x \<Longrightarrow>
   \<exists>e. fst (retry_loop operation config attempt delay lastError) = Exhausted e"
proof (induction operation config attempt delay lastError rule: retry_loop.induct)
  case (1 operation config attempt delay lastError)
  from "1.prems" obtain x where x: "operation attempt = Inl x" by blast
  show ?case
  proof (cases "int attempt \<le> maxRetries config")
    case False
    then show ?thesis by (simp add: retry_loop.simps [of operation config attempt])
  next
    case le: True
    show ?thesis
    proof (cases "int attempt < maxRetries config")
      case True
      from "1.IH"(1) [OF le x True "1.prems"] show ?thesis using le x True
        by (simp add: retry_loop.simps [of operation config attempt])
    next
      case False
      from "1.IH"(2) [OF le x False "1.prems"] show ?thesis using le x False
        by (simp add: retry_loop.simps [of operation config attempt])
    qed
  qed
qed

lemma retry_loop_nonpositive:
  "maxRetries config \<le> 0 \<Longrightarrow>
   retry_loop operation config 1 delay lastError = (Exhausted lastError, [])"
  by (subst retry_loop.simps) simp

lemma retry_exhausted:
  "fst (retry_loop operation config 1 (initialDelay config) None) = Exhausted (Some e) \<Longrightarrow>
   fst (retry operation config) = Inl e \<and>
   snd (retry operation config) = snd (retry_loop operation config 1 (initialDelay config) None)"
  by (cases "retry_loop operation config 1 (initialDelay config) None")
     (simp add: retry_def)

lemma backoff_closed: "backoff 1000 10000 i = (if i < 4 then 1000 * 2 ^ i else 10000)"
proof (induction i)
  case 0 show ?case by simp
next
  case (Suc i)
  have "i < 3 \<or> i = 3 \<or> 3 < i" by arith
  moreover have "i < 3 \<Longrightarrow> (2::int) ^ i \<le> 4"
    using power_increasing [of i 2 "2::int"] by simp
  ultimately show ?case using Suc by auto
qed

text \<open>
  Claim C6. An operation that fails at every attempt, under
  \<open>{maxRetries = n, initialDelay = 1000, maxDelay = 10000}\<close> with \<open>n \<ge> 1\<close>. The trace of
  \<open>retry\<close> is, for the attempts 1 to \<open>n\<close> in turn, the invocation of the operation, the
  warning, and then, for every attempt but the last, the sleep for the delay \<open>d\<^sub>k\<close>: each
  sleep lies between two consecutive attempts, and nothing comes after the warning of
  attempt \<open>n\<close>. The delays are those of the sequence \<open>d\<^sub>1 = 1000\<close>,
  \<open>d\<^sub>i\<^sub>+\<^sub>1 = min (2 d\<^sub>i) 10000\<close>, which runs 1000, 2000, 4000, 8000, 10000, 10000, ... and
  never exceeds 10000; the operation is invoked exactly \<open>n\<close> times; and the failure of
  attempt \<open>n\<close> is what \<open>retry\<close> throws.
\<close>

theorem retry_backoff_sequence:
  "(\<forall>k. \<exists>x. operation k = Inl x) \<Longrightarrow> 1 \<le> n \<Longrightarrow>
   snd (retry operation \<lparr>maxRetries = n, initialDelay = 1000, maxDelay = 10000\<rparr>) =
     concat (map (failed_attempt operation
                    \<lparr>maxRetries = n, initialDelay = 1000, maxDelay = 10000\<rparr>)
               [1..<Suc (nat n)]) \<and>
   sleeps (snd (retry operation \<lparr>maxRetries = n, initialDelay = 1000, maxDelay = 10000\<rparr>)) =
     map (backoff 1000 10000) [0..<nat n - 1] \<and>
   (\<forall>i. backoff 1000 10000 i = (if i < 4 then 1000 * 2 ^ i else 10000)) \<and>
   (\<forall>i. backoff 1000 10000 i \<le> 10000) \<and>
   invocations (snd (retry operation \<lparr>maxRetries = n, initialDelay = 1000, maxDelay = 10000\<rparr>)) =
     [1..<Suc (nat n)] \<and>
   (\<exists>x pre. operation (nat n) = Inl x \<and>
      fst (retry operation \<lparr>maxRetries = n, initialDelay = 1000, maxDelay = 10000\<rparr>) =
        Inl (as_Error x) \<and>
      snd (retry operation \<lparr>maxRetries = n, initialDelay = 1000, maxDelay = 10000\<rparr>) =
        pre @ [Invoked (nat n), Warned (nat n) n (err_message (as_Error x))])"
proof -
  assume fails: "\<forall>k. \<exists>x. operation k = Inl x" and n: "1 \<le> n"
  let ?config = "\<lparr>maxRetries = n, initialDelay = 1000, maxDelay = 10000\<rparr>"
  let ?loop = "retry_loop operation ?config 1 (initialDelay ?config) None"
  from retry_loop_exhausted [OF fails] obtain e where e: "fst ?loop = Exhausted e"
    by blast
  from retry_loop_final_events [OF _ e] n
  obtain x pre where x: "operation (nat n) = Inl x" "e = Some (as_Error x)"
    and tr: "snd ?loop = pre @ [Invoked (nat n), Warned (nat n) n (err_message (as_Error x))]"
    by auto
  from retry_exhausted [of operation ?config "as_Error x"] e x
  have r: "fst (retry operation ?config) = Inl (as_Error x)"
    "snd (retry operation ?config) = snd ?loop"
    by simp_all
  have upper: "nat (maxRetries ?config + 1) = Suc (nat n)"
    using n by (simp add: nat_add_distrib)
  have t: "snd ?loop = concat (map (failed_attempt operation ?config) [1..<Suc (nat n)])"
    unfolding retry_loop_trace [OF fails, of ?config 1 "initialDelay ?config" None] upper
    by (rule arg_cong [where f = concat], rule map_cong [OF refl])
       (simp add: failed_attempt_def del: backoff.simps)
  have s: "sleeps (snd ?loop) = map (backoff 1000 10000) [0..<nat n - 1]"
    using retry_loop_sleeps [OF fails, of ?config 1 "initialDelay ?config" None] n
    by (simp add: nat_diff_distrib)
  have i: "invocations (snd ?loop) = [1..<Suc (nat n)]"
    using retry_loop_invocations [OF fails, of ?config 1 "initialDelay ?config" None] n
    by (simp add: nat_add_distrib)
  have b: "\<forall>i. backoff 1000 10000 i \<le> 10000"
  proof
    fix i
    have "i < 4 \<Longrightarrow> (2::int) ^ i \<le> 2 ^ 3"
      by (rule power_increasing) simp_all
    then have "i < 4 \<Longrightarrow> (2::int) ^ i \<le> 10"
      by fastforce
    then show "backoff 1000 10000 i \<le> 10000"
      by (simp add: backoff_closed del: backoff.simps)
  qed
  have c: "\<forall>i. backoff 1000 10000 i = (if i < 4 then 1000 * 2 ^ i else 10000)"
    using backoff_closed by blast
  have last: "\<exists>x pre. operation (nat n) = Inl x \<and>
      fst (retry operation ?config) = Inl (as_Error x) \<and>
      snd (retry operation ?config) =
        pre @ [Invoked (nat n), Warned (nat n) n (err_message (as_Error x))]"
    using x r tr by auto
  show ?thesis
    unfolding r(2) t [symmetric] s i
    using b c last [unfolded r(2)] r(1) by (simp del: backoff.simps)
qed

theorem retry_backoff_sequence_witness:
  "(\<forall>k. \<exists>x. (\<lambda>k. Inl (Value (JStr ''down'')) :: thrown + unit) k = Inl x) \<and> (1::int) \<le> 7 \<and>
   retry (\<lambda>k. Inl (Value (JStr ''down'')) :: thrown + unit)
     \<lparr>maxRetries = 7, initialDelay = 1000, maxDelay = 10000\<rparr> =
     (Inl (Error ''down''),
      [Invoked 1, Warned 1 7 ''down'', Slept 1000,
       Invoked 2, Warned 2 7 ''down'', Slept 2000,
       Invoked 3, Warned 3 7 ''down'', Slept 4000,
       Invoked 4, Warned 4 7 ''down'', Slept 8000,
       Invoked 5, Warned 5 7 ''down'', Slept 10000,
       Invoked 6, Warned 6 7 ''down'', Slept 10000,
       Invoked 7, Warned 7 7 ''down'']) \<and>
   sleeps (snd (retry (\<lambda>k. Inl (Value (JStr ''down'')) :: thrown + unit)
                  \<lparr>maxRetries = 7, initialDelay = 1000, maxDelay = 10000\<rparr>)) =
     [1000, 2000, 4000, 8000, 10000, 10000] \<and>
   invocations (snd (retry (\<lambda>k. Inl (Value (JStr ''down'')) :: thrown + unit)
                  \<lparr>maxRetries = 7, initialDelay = 1000, maxDelay = 10000\<rparr>)) =
     [1, 2, 3, 4, 5, 6, 7]"
proof -
  let ?op = "\<lambda>k. Inl (Value (JStr ''down'')) :: thrown + unit"
  let ?config = "\<lparr>maxRetries = 7, initialDelay = 1000, maxDelay = 10000\<rparr>"
  have seven: "nat 7 - 1 = Suc (Suc (Suc (Suc (Suc (Suc 0)))))"
    "nat 7 = Suc (Suc (Suc (Suc (Suc (Suc (Suc 0))))))"
    by simp_all
  note T = retry_backoff_sequence [of ?op 7]
  have tr: "snd (retry ?op ?config) =
      [Invoked 1, Warned 1 7 ''down'', Slept 1000,
       Invoked 2, Warned 2 7 ''down'', Slept 2000,
       Invoked 3, Warned 3 7 ''down'', Slept 4000,
       Invoked 4, Warned 4 7 ''down'', Slept 8000,
       Invoked 5, Warned 5 7 ''down'', Slept 10000,
       Invoked 6, Warned 6 7 ''down'', Slept 10000,
       Invoked 7, Warned 7 7 ''down'']"
    using T by (simp add: seven failed_attempt_def Error_def upt_conv_Cons) 
  have th: "fst (retry ?op ?config) = Inl (Error ''down'')"
    using T by (auto simp: seven)
  have sl: "sleeps (snd (retry ?op ?config)) = [1000, 2000, 4000, 8000, 10000, 10000]"
    by (simp add: tr)
  have inv: "invocations (snd (retry ?op ?config)) = [1, 2, 3, 4, 5, 6, 7]"
    by (simp add: tr)
  show ?thesis
    using tr th sl inv by (simp add: prod_eq_iff)
qed

text \<open>
  Claim C10. With \<open>maxRetries \<le> 0\<close> the operation is never invoked (the trace is empty)
  and \<open>retry\<close> throws the synthetic error; with \<open>maxRetries \<ge> 1\<close> the loop never falls
  through with an undefined \<open>lastError\<close>, and what \<open>retry\<close> throws is the failure of the
  operation's last attempt.
\<close>

theorem retry_without_attempts:
  "(maxRetries config \<le> 0 \<longrightarrow>
      retry operation config = (Inl (Error ''Operation failed with unknown error''), [])) \<and>
   (1 \<le> maxRetries config \<longrightarrow>
      fst (retry_loop operation config 1 (initialDelay config) None) \<noteq> Exhausted None \<and>
      (\<forall>e. fst (retry operation config) = Inl e \<longrightarrow>
         (\<exists>x. operation (nat (maxRetries config)) = Inl x \<and> e = as_Error x)))"
proof (intro conjI impI allI)
  assume "maxRetries config \<le> 0"
  then show "retry operation config = (Inl (Error ''Operation failed with unknown error''), [])"
    unfolding retry_def by (simp only: retry_loop_nonpositive) simp
next
  assume n: "1 \<le> maxRetries config"
  show "fst (retry_loop operation config 1 (initialDelay config) None) \<noteq> Exhausted None"
    using retry_loop_final_events [of 1 config operation "initialDelay config" None None] n
    by auto
next
  fix e
  assume n: "1 \<le> maxRetries config" and e: "fst (retry operation config) = Inl e"
  obtain r evs where l: "retry_loop operation config 1 (initialDelay config) None = (r, evs)"
    by (cases "retry_loop operation config 1 (initialDelay config) None")
  show "\<exists>x. operation (nat (maxRetries config)) = Inl x \<and> e = as_Error x"
  proof (cases r)
    case (Returned v)
    with l e show ?thesis by (simp add: retry_def)
  next
    case (Exhausted le)
    with l have "fst (retry_loop operation config 1 (initialDelay config) None) = Exhausted le"
      by simp
    from retry_loop_final_events [OF _ this] n
    obtain x where "operation (nat (maxRetries config)) = Inl x" "le = Some (as_Error x)"
      by auto
    with l e Exhausted show ?thesis by (simp add: retry_def)
  qed
qed

theorem retry_without_attempts_witness:
  "maxRetries \<lparr>maxRetries = 0, initialDelay = 1000, maxDelay = 10000\<rparr> \<le> 0 \<and>
   retry (\<lambda>k. Inr k) \<lparr>maxRetries = 0, initialDelay = 1000, maxDelay = 10000\<rparr> =
     (Inl (Error ''Operation failed with unknown error''), []) \<and>
   1 \<le> maxRetries \<lparr>maxRetries = 2, initialDelay = 1000, maxDelay = 10000\<rparr> \<and>
   fst (retry (\<lambda>k. Inl (Value (JStr ''down'')) :: thrown + unit)
          \<lparr>maxRetries = 2, initialDelay = 1000, maxDelay = 10000\<rparr>) = Inl (Error ''down'') \<and>
   (\<exists>x. (\<lambda>k. Inl (Value (JStr ''down'')) :: thrown + unit) (nat 2) = Inl x \<and>
        Error ''down'' = as_Error x)"
proof -
  have two: "retry (\<lambda>k. Inl (Value (JStr ''down'')) :: thrown + unit)
          \<lparr>maxRetries = 2, initialDelay = 1000, maxDelay = 10000\<rparr> =
     (Inl (Error ''down''),
      [Invoked 1, Warned 1 2 ''down'', Slept 1000, Invoked 2, Warned 2 2 ''down''])"
    by (simp add: retry_def retry_loop.simps Error_def emit_def)
  show ?thesis
    using retry_without_attempts [of "\<lparr>maxRetries = 0, initialDelay = 1000, maxDelay = 10000\<rparr>"
            "\<lambda>k. Inr k"]
          retry_without_attempts [of "\<lparr>maxRetries = 2, initialDelay = 1000, maxDelay = 10000\<rparr>"
            "\<lambda>k. Inl (Value (JStr ''down'')) :: thrown + unit"]
    by (simp add: two)
qed

section \<open>Properties of the engine\<close>

lemma update_fresh: "k \<notin> fst ` set al \<Longrightarrow> AList.update k v al = al @ [(k, v)]"
  by (induction al) auto

lemma fold_update_distinct:
  "distinct (map fst acc) \<Longrightarrow>
   distinct (map fst (fold (\<lambda>(k, v). AList.update k v) xs acc))"
  by (induction xs arbitrary: acc) (auto simp: distinct_update split: prod.splits)

lemma distinct_spread: "distinct (map fst (spread c))"
  by (simp add: spread_def Object_assign_def fold_update_distinct)

lemma fold_update_append:
  "distinct (map fst (acc @ xs)) \<Longrightarrow> fold (\<lambda>(k, v). AList.update k v) xs acc = acc @ xs"
proof (induction xs arbitrary: acc)
  case Nil
  then show ?case by simp
next
  case (Cons x xs)
  obtain k v where x: "x = (k, v)" by (cases x)
  from Cons.prems x have fresh: "k \<notin> fst ` set acc" by auto
  from Cons.prems x have "distinct (map fst ((acc @ [(k, v)]) @ xs))" by simp
  from Cons.IH [OF this] show ?case using x fresh by (simp add: update_fresh)
qed

lemma spread_distinct: "distinct (map fst c) \<Longrightarrow> spread c = c"
  using fold_update_append [of "[]" c] by (simp add: spread_def Object_assign_def)

lemma fold_update_own:
  "distinct (map fst c) \<Longrightarrow> set xs \<subseteq> set c \<Longrightarrow> fold (\<lambda>(k, v). AList.update k v) xs c = c"
proof (induction xs)
  case Nil
  then show ?case by simp
next
  case (Cons x xs)
  obtain k v where x: "x = (k, v)" by (cases x)
  with Cons.prems have "map_of c k = Some v" by simp
  then have "AList.update k v c = c" by (rule update_triv)
  with Cons x show ?case by simp
qed

lemma Object_assign_self: "distinct (map fst c) \<Longrightarrow> Object_assign c c = c"
  by (simp add: Object_assign_def fold_update_own)

lemma Object_assign_spread: "Object_assign (spread c) (spread (spread c)) = spread c"
  by (simp add: spread_distinct [OF distinct_spread] Object_assign_self [OF distinct_spread])

lemma retry_loop_returns_first:
  "1 \<le> maxRetries config \<Longrightarrow>
   retry_loop (\<lambda>k. Inr x) config 1 delay lastError = (Returned x, [Invoked 1])"
  by (subst retry_loop.simps) simp

lemma retry_returns_first:
  "1 \<le> maxRetries config \<Longrightarrow> retry (\<lambda>k. Inr x) config = (Inr x, [Invoked 1])"
  unfolding retry_def by (simp only: retry_loop_returns_first) simp

lemma getChatCompletion_once:
  "1 \<le> maxRetries (retryConfig sw) \<Longrightarrow>
   getChatCompletion sw ag history contextVars override streaming =
     (Inr (client sw (createParams ag history override streaming)),
      [Requested (createParams ag history override streaming)])"
  by (simp add: getChatCompletion_def Let_def retry_returns_first)

lemma handleToolCalls_loop_append:
  "handleToolCalls_loop J (xs @ ys) ag cv r =
     (case handleToolCalls_loop J xs ag cv r of
        ((Inl e, evs), cv') \<Rightarrow> ((Inl e, evs), cv')
      | ((Inr r', evs), cv') \<Rightarrow>
          (case handleToolCalls_loop J ys ag cv' r' of
             (p, cv'') \<Rightarrow> (emit evs p, cv'')))"
proof (induction xs arbitrary: r cv)
  case Nil
  show ?case by (simp add: emit_def split: prod.splits)
next
  case (Cons x xs)
  show ?case
    by (simp add: Cons.IH emit_def split: prod.splits sum.splits)
qed

text \<open>
  When the loop returns, it has pushed one message for each call, and these messages,
  the trace and the context it leaves do not depend on the accumulator it started with.
\<close>

lemma handleToolCalls_loop_returns:
  "handleToolCalls_loop J calls ag cv r = ((Inr r', evs), cv') \<Longrightarrow>
   \<exists>ms. length ms = length calls \<and>
        (\<forall>r0. handleToolCalls_loop J calls ag cv r0 =
                ((Inr (r0\<lparr>messages := messages r0 @ ms\<rparr>), evs), cv'))"
proof (induction calls arbitrary: r cv evs r' cv')
  case Nil
  then show ?case by simp
next
  case (Cons c calls)
  obtain res evs1 cv1 where d: "dispatch J ag cv c = ((res, evs1), cv1)"
    by (cases "dispatch J ag cv c") auto
  show ?case
  proof (cases res)
    case (Inl e)
    with d Cons.prems show ?thesis by simp
  next
    case (Inr m)
    obtain res2 evs2 cv2 where
      l: "handleToolCalls_loop J calls ag cv1 (r\<lparr>messages := messages r @ [m]\<rparr>) =
            ((res2, evs2), cv2)"
      by (cases "handleToolCalls_loop J calls ag cv1 (r\<lparr>messages := messages r @ [m]\<rparr>)") auto
    from Cons.prems d Inr l have res2: "res2 = Inr r'" and evs: "evs = evs1 @ evs2"
      and cv': "cv' = cv2"
      by (simp_all add: emit_def)
    from Cons.IH [OF l [unfolded res2]] obtain ms where len: "length ms = length calls"
      and all: "\<forall>r0. handleToolCalls_loop J calls ag cv1 r0 =
                  ((Inr (r0\<lparr>messages := messages r0 @ ms\<rparr>), evs2), cv2)"
      by blast
    have "\<forall>r0. handleToolCalls_loop J (c # calls) ag cv r0 =
            ((Inr (r0\<lparr>messages := messages r0 @ m # ms\<rparr>), evs), cv')"
      using d Inr all evs cv' by (simp add: emit_def)
    with len show ?thesis by (intro exI [of _ "m # ms"]) simp
  qed
qed

lemma handleToolCalls_returns:
  "handleToolCalls J calls ag cv = ((Inr r, evs), cv') \<Longrightarrow>
   \<exists>ms. length ms = length calls \<and>
        r = \<lparr>success = True,
             data = Some \<lparr>messages = ms, agent = None, contextVariables = spread cv\<rparr>,
             error = None\<rparr> \<and>
        (\<forall>r0. handleToolCalls_loop J calls ag cv r0 =
                ((Inr (r0\<lparr>messages := messages r0 @ ms\<rparr>), evs), cv'))"
proof -
  assume h: "handleToolCalls J calls ag cv = ((Inr r, evs), cv')"
  let ?acc = "\<lparr>messages = [], agent = None, contextVariables = spread cv\<rparr>"
  obtain res evs1 cv1 where l: "handleToolCalls_loop J calls ag cv ?acc = ((res, evs1), cv1)"
    by (cases "handleToolCalls_loop J calls ag cv ?acc") auto
  show ?thesis
  proof (cases res)
    case (Inl e)
    with h l show ?thesis by (simp add: handleToolCalls_def)
  next
    case (Inr response)
    with h l have r: "r = \<lparr>success = True, data = Some response, error = None\<rparr>"
      and e: "evs1 = evs" "cv1 = cv'"
      by (simp_all add: handleToolCalls_def)
    from handleToolCalls_loop_returns [OF l [unfolded Inr]] obtain ms where
      len: "length ms = length calls"
      and all: "\<forall>r0. handleToolCalls_loop J calls ag cv r0 =
                  ((Inr (r0\<lparr>messages := messages r0 @ ms\<rparr>), evs1), cv1)"
      by blast
    from all l Inr have "response = ?acc\<lparr>messages := messages ?acc @ ms\<rparr>" by simp
    with r len all e show ?thesis by (intro exI [of _ ms]) simp
  qed
qed



text \<open>
  More fuel does not change what a run returns.
\<close>

lemma run_loop_more_fuel:
  "run_loop fuel J sw opts initLen ag history contextVars = Some r \<Longrightarrow>
   run_loop (fuel + k) J sw opts initLen ag history contextVars = Some r"
proof (induction fuel arbitrary: ag history contextVars r)
  case 0
  then show ?case by (cases k) (simp_all split: if_splits)
next
  case (Suc fuel)
  show ?case
  proof (cases "enat (length history - initLen) < maxTurns opts")
    case False
    with Suc.prems show ?thesis by simp
  next
    case True
    obtain te evs where t: "turn J sw opts initLen ag history contextVars = (te, evs)"
      by (cases "turn J sw opts initLen ag history contextVars")
    show ?thesis
    proof (cases te)
      case (Done result)
      with Suc.prems True t show ?thesis by simp
    next
      case (Continue ag' history' contextVars')
      with Suc.prems True t obtain r' where
        r': "run_loop fuel J sw opts initLen ag' history' contextVars' = Some r'"
        and r: "r = emit evs r'"
        by auto
      from Suc.IH [OF r'] True t Continue r show ?thesis by simp
    qed
  qed
qed


lemma turn_dispatches:
  assumes "getChatCompletion sw ag history contextVars (modelOverride opts) False =
             (Inr \<lparr>success = True, data = Some (ChatCompletion m), error = None\<rparr>, evs)"
    and "tool_calls m = Some calls" and "executeTools opts"
  shows "turn J sw opts initLen ag history contextVars =
           emit evs
             (case handleToolCalls J calls ag contextVars of
                ((Inl e, evs'), contextVars') \<Rightarrow> (Done (caught e), evs')
              | ((Inr toolResult, evs'), contextVars') \<Rightarrow>
                  (case data toolResult of
                     None \<Rightarrow> (Done toolResult, evs')
                   | Some d \<Rightarrow>
                       if \<not> success toolResult then (Done toolResult, evs')
                       else (Continue (case agent d of Some a \<Rightarrow> a | None \<Rightarrow> ag)
                               ((history @ [m\<lparr>sender := Some (name ag)\<rparr>]) @ messages d)
                               (Object_assign contextVars' (contextVariables d)),
                             evs')))"
  using assms by (simp add: turn_def Let_def)

text \<open>The definitions that evaluate a run on the concrete inputs.\<close>

lemmas example_defs =
  example_JSON_def agent_A_def agent_B_def agent_W_def lookup_tool_def remember_tool_def
  failing_tool_def note_tool_def user_hi_def assistant_hello_def tool_call_def
  assistant_calls_def completed_def provider_def example_swarm_def example_options_def

lemmas engine_defs =
  run_def turn_def getChatCompletion_once createParams_def system_message_def finished_def
  returned_messages_def spread_def Object_assign_def handleToolCalls_def dispatch_def
  execute_tool_def parseArguments_def and_then_def tool_message_def CTX_VARS_NAME_def
  emit_def apply_writes_def Error_def ValidationError_def ToolExecutionError_def
  quote_def escape_def escapes_def

text \<open>
  Claim C5, as amended. A non-streaming run with \<open>maxTurns = 1\<close> whose first completion
  request the provider answers with an assistant message of content \<open>hello\<close> and no
  tool calls (none, or an empty list) makes that one request and no other call, and
  returns success with exactly one message: the provider's message with \<open>sender\<close> set
  to the agent's name.
\<close>

theorem run_single_turn:
  assumes "\<not> stream opts" and "maxTurns opts = 1" and "1 \<le> maxRetries (retryConfig sw)"
    and "client sw (createParams ag msgs (modelOverride opts) False) =
           \<lparr>success = True, data = Some (ChatCompletion m), error = None\<rparr>"
    and "role m = Assistant" and "content m = Some ''hello''"
    and "tool_calls m = None \<or> tool_calls m = Some []"
  shows "run (Suc fuel) J sw ag msgs contextVars opts =
           Some (\<lparr>success = True,
                  data = Some \<lparr>messages = [\<lparr>role = Assistant, content = Some ''hello'',
                                            sender = Some (name ag),
                                            tool_call_id = tool_call_id m,
                                            tool_calls = tool_calls m\<rparr>],
                               agent = Some ag, contextVariables = spread contextVars\<rparr>,
                  error = None\<rparr>,
                 [Requested (createParams ag msgs (modelOverride opts) False)])"
proof -
  let ?m = "\<lparr>role = Assistant, content = Some ''hello'', sender = Some (name ag),
             tool_call_id = tool_call_id m, tool_calls = tool_calls m\<rparr>"
  have m: "m\<lparr>sender := Some (name ag)\<rparr> = ?m"
    using assms(5,6) by (cases m) simp
  have one: "enat (length msgs - length msgs) < maxTurns opts"
    using assms(2) by (simp add: zero_enat_def [symmetric])
  from assms(7) show ?thesis
  proof
    assume none: "tool_calls m = None"
    have "turn J sw opts (length msgs) ag msgs (spread contextVars) =
            (Done (finished (length msgs) ag (msgs @ [?m]) (spread contextVars)),
             [Requested (createParams ag msgs (modelOverride opts) False)])"
      using none m assms(4)
      by (simp add: turn_def getChatCompletion_once [OF assms(3)] Let_def)
    then show ?thesis
      using assms(1) one by (simp add: run_def finished_def)
  next
    assume empty: "tool_calls m = Some []"
    show ?thesis
    proof (cases "executeTools opts")
      case False
      have "turn J sw opts (length msgs) ag msgs (spread contextVars) =
            (Done (finished (length msgs) ag (msgs @ [?m]) (spread contextVars)),
             [Requested (createParams ag msgs (modelOverride opts) False)])"
        using empty m assms(4) False
        by (simp add: turn_def getChatCompletion_once [OF assms(3)] Let_def)
      then show ?thesis
        using assms(1) one by (simp add: run_def finished_def)
    next
      case True
      have t: "turn J sw opts (length msgs) ag msgs (spread contextVars) =
            (Continue ag (msgs @ [?m]) (spread contextVars),
             [Requested (createParams ag msgs (modelOverride opts) False)])"
        using empty m assms(4) True
        by (simp add: turn_def getChatCompletion_once [OF assms(3)] Let_def handleToolCalls_def
              emit_def Object_assign_spread)
      have stop: "\<not> enat (length (msgs @ [?m]) - length msgs) < maxTurns opts"
        using assms(2) by (simp add: one_enat_def)
      have "run_loop fuel J sw opts (length msgs) ag (msgs @ [?m]) (spread contextVars) =
              Some (finished (length msgs) ag (msgs @ [?m]) (spread contextVars), [])"
        using stop by (cases fuel) simp_all
      then show ?thesis
        using assms(1) one t by (simp add: run_def finished_def emit_def)
    qed
  qed
qed

theorem run_single_turn_witness:
  "\<not> stream (example_options 1) \<and> maxTurns (example_options 1) = 1 \<and>
   1 \<le> maxRetries (retryConfig (example_swarm assistant_hello)) \<and>
   client (example_swarm assistant_hello)
     (createParams agent_A [user_hi] (modelOverride (example_options 1)) False) =
     \<lparr>success = True, data = Some (ChatCompletion assistant_hello), error = None\<rparr> \<and>
   role assistant_hello = Assistant \<and> content assistant_hello = Some ''hello'' \<and>
   tool_calls assistant_hello = None \<and>
   returned_messages
     (run 1 example_JSON (example_swarm assistant_hello) agent_A [user_hi] [] (example_options 1)) =
     Some [\<lparr>role = Assistant, content = Some ''hello'', sender = Some ''A'',
            tool_call_id = None, tool_calls = None\<rparr>]"
  using run_single_turn [of "example_options 1" "example_swarm assistant_hello" agent_A
          "[user_hi]" assistant_hello 0 example_JSON "[]"]
  by (simp add: example_defs createParams_def returned_messages_def)

text \<open>
  Claim C5, as stated, fails: the returned message is not the two-field message
  \<open>{role: assistant, content: "hello"}\<close>, it also carries the sender label \<open>A\<close>.
\<close>

theorem run_single_turn_sets_sender:
  "returned_messages
     (run 1 example_JSON (example_swarm assistant_hello) agent_A [user_hi] [] (example_options 1)) =
     Some [\<lparr>role = Assistant, content = Some ''hello'', sender = Some ''A'',
            tool_call_id = None, tool_calls = None\<rparr>] \<and>
   returned_messages
     (run 1 example_JSON (example_swarm assistant_hello) agent_A [user_hi] [] (example_options 1)) \<noteq>
     Some [\<lparr>role = Assistant, content = Some ''hello'', sender = None,
            tool_call_id = None, tool_calls = None\<rparr>]"
  by (simp add: example_defs run_def turn_def getChatCompletion_once createParams_def
        system_message_def finished_def returned_messages_def spread_def Object_assign_def
        one_enat_def zero_enat_def)




lemma dispatch_parse_failure:
  assumes "find (\<lambda>f. func_name f = fn_name (func c)) (funcs ag) = Some f"
    and "parse J (arguments (func c)) = Inl e"
  shows "dispatch J ag contextVars c =
           ((Inl (ToolExecutionError
                    (''Failed to execute tool '' @ fn_name (func c) @
                     '': Failed to parse function arguments: '' @ arguments (func c))
                    (Some (ValidationError
                             (''Failed to parse function arguments: '' @ arguments (func c))
                             (Some (as_Error e))))),
             []),
            contextVars)"
  using assms
  by (simp add: dispatch_def execute_tool_def parseArguments_def and_then_def
        ValidationError_def)

text \<open>
  When the calls \<open>pre\<close> return and the call after them throws, \<open>handleToolCalls\<close>
  throws what that call throws, after the trace of \<open>pre\<close> and of the call.
\<close>

lemma handleToolCalls_throws_at:
  assumes "handleToolCalls J pre ag contextVars = ((Inr r1, evs1), cv1)"
    and "dispatch J ag cv1 c = ((Inl e, evs), cv2)"
  shows "handleToolCalls J (pre @ c # post) ag contextVars = ((Inl e, evs1 @ evs), cv2)"
proof -
  from handleToolCalls_returns [OF assms(1)] obtain ms where
    "\<forall>r0. handleToolCalls_loop J pre ag contextVars r0 =
            ((Inr (r0\<lparr>messages := messages r0 @ ms\<rparr>), evs1), cv1)"
    by blast
  then show ?thesis
    using assms(2) by (simp add: handleToolCalls_def handleToolCalls_loop_append emit_def)
qed

text \<open>
  Claim C3, as amended. At a turn of a run whose assistant message carries the calls
  \<open>pre\<close>, \<open>c\<close>, \<open>post\<close>, where no call of \<open>pre\<close> throws (\<open>handleToolCalls\<close> on
  \<open>pre\<close> returns, with the trace \<open>evs\<^sub>1\<close>), the tool of \<open>c\<close> is
  registered and \<open>JSON.parse\<close> rejects the argument payload of \<open>c\<close>: the run ends at
  once with a failure whose error is the tool-execution error wrapping the validation
  failure (name \<open>ToolExecutionError\<close>, message \<open>Failed to execute tool\<close> \<open>name\<close>\<open>:\<close>
  \<open>Failed to parse function arguments:\<close> \<open>payload\<close>); the tool of \<open>c\<close> is not invoked
  and nothing of \<open>post\<close> is dispatched: the trace ends with the calls of \<open>pre\<close>.
\<close>

theorem malformed_arguments_abort_run:
  assumes "enat (length history - initLen) < maxTurns opts" and "executeTools opts"
    and "getChatCompletion sw ag history contextVars (modelOverride opts) False =
           (Inr \<lparr>success = True, data = Some (ChatCompletion m), error = None\<rparr>, evs)"
    and "tool_calls m = Some (pre @ c # post)"
    and "handleToolCalls J pre ag contextVars = ((Inr r1, evs1), cv1)"
    and "find (\<lambda>f. func_name f = fn_name (func c)) (funcs ag) = Some f"
    and "parse J (arguments (func c)) = Inl e"
  shows "\<exists>r tag. run_loop (Suc fuel) J sw opts initLen ag history contextVars =
                  Some (r, evs @ evs1) \<and>
               \<not> success r \<and> data r = None \<and>
               error r = Some (ErrorObject ''ToolExecutionError''
                                 (''Failed to execute tool '' @ fn_name (func c) @
                                  '': Failed to parse function arguments: '' @
                                  arguments (func c))
                                 tag None)"
proof -
  note d = dispatch_parse_failure [OF assms(6,7), of cv1]
  note h = handleToolCalls_throws_at [OF assms(5) d, of post]
  show ?thesis
    using assms(1)
    by (simp add: turn_dispatches [OF assms(3,4,2)] h emit_def ToolExecutionError_def)
qed

theorem malformed_arguments_abort_run_witness:
  "enat (length [user_hi] - 1) < maxTurns (example_options \<infinity>) \<and>
   executeTools (example_options \<infinity>) \<and>
   getChatCompletion (example_swarm (assistant_calls [tool_call ''c1'' ''remember'' ''{}'',
                                         tool_call ''c2'' ''lookup'' ''not json'',
                                         tool_call ''c3'' ''explode'' ''{}'']))
      agent_A [user_hi] [] (modelOverride (example_options \<infinity>)) False =
     (Inr \<lparr>success = True,
           data = Some (ChatCompletion (assistant_calls [tool_call ''c1'' ''remember'' ''{}'',
                                         tool_call ''c2'' ''lookup'' ''not json'',
                                         tool_call ''c3'' ''explode'' ''{}''])),
           error = None\<rparr>,
      [Requested (createParams agent_A [user_hi] None False)]) \<and>
   handleToolCalls example_JSON [tool_call ''c1'' ''remember'' ''{}''] agent_A [] =
     ((Inr \<lparr>success = True,
            data = Some \<lparr>messages =
                           [\<lparr>role = Tool,
                             content = Some ''{\"value\":\"noted\",\"contextVariables\":{\"user\":\"Ada\"}}'',
                             sender = None, tool_call_id = Some ''c1'', tool_calls = None\<rparr>],
                         agent = None, contextVariables = []\<rparr>,
            error = None\<rparr>,
       [ToolInvoked ''remember'' (JObj [])]),
      []) \<and>
   find (\<lambda>f. func_name f = fn_name (func (tool_call ''c2'' ''lookup'' ''not json'')))
     (funcs agent_A) = Some lookup_tool \<and>
   parse example_JSON (arguments (func (tool_call ''c2'' ''lookup'' ''not json''))) =
     Inl (ErrorObject ''SyntaxError'' ''Unexpected token'' None None) \<and>
   (\<exists>r tag. run_loop 1 example_JSON
               (example_swarm (assistant_calls [tool_call ''c1'' ''remember'' ''{}'',
                                         tool_call ''c2'' ''lookup'' ''not json'',
                                         tool_call ''c3'' ''explode'' ''{}'']))
               (example_options \<infinity>) 1 agent_A [user_hi] [] =
               Some (r, [Requested (createParams agent_A [user_hi] None False),
                         ToolInvoked ''remember'' (JObj [])]) \<and>
            \<not> success r \<and> data r = None \<and>
            error r = Some (ErrorObject ''ToolExecutionError''
                ''Failed to execute tool lookup: Failed to parse function arguments: not json''
                tag None))"
proof -
  have g: "getChatCompletion (example_swarm (assistant_calls [tool_call ''c1'' ''remember'' ''{}'',
                                         tool_call ''c2'' ''lookup'' ''not json'',
                                         tool_call ''c3'' ''explode'' ''{}'']))
      agent_A [user_hi] [] (modelOverride (example_options \<infinity>)) False =
     (Inr \<lparr>success = True,
           data = Some (ChatCompletion (assistant_calls [tool_call ''c1'' ''remember'' ''{}'',
                                         tool_call ''c2'' ''lookup'' ''not json'',
                                         tool_call ''c3'' ''explode'' ''{}''])),
           error = None\<rparr>,
      [Requested (createParams agent_A [user_hi] None False)])"
    by (simp add: getChatCompletion_once example_swarm_def provider_def createParams_def
          completed_def example_options_def)
  have d1: "handleToolCalls example_JSON [tool_call ''c1'' ''remember'' ''{}''] agent_A [] =
     ((Inr \<lparr>success = True,
            data = Some \<lparr>messages =
                           [\<lparr>role = Tool,
                             content = Some ''{\"value\":\"noted\",\"contextVariables\":{\"user\":\"Ada\"}}'',
                             sender = None, tool_call_id = Some ''c1'', tool_calls = None\<rparr>],
                         agent = None, contextVariables = []\<rparr>,
            error = None\<rparr>,
       [ToolInvoked ''remember'' (JObj [])]),
      [])"
    by (simp add: example_defs engine_defs)
  have f: "find (\<lambda>f. func_name f = fn_name (func (tool_call ''c2'' ''lookup'' ''not json'')))
     (funcs agent_A) = Some lookup_tool"
    by (simp add: agent_A_def lookup_tool_def tool_call_def)
  have p: "parse example_JSON (arguments (func (tool_call ''c2'' ''lookup'' ''not json''))) =
     Inl (ErrorObject ''SyntaxError'' ''Unexpected token'' None None)"
    by (simp add: example_JSON_def tool_call_def)
  have one: "(1::nat) = Suc 0" by simp
  show ?thesis
    using malformed_arguments_abort_run [of "[user_hi]" 1 "example_options \<infinity>"
            "example_swarm (assistant_calls [tool_call ''c1'' ''remember'' ''{}'',
                                         tool_call ''c2'' ''lookup'' ''not json'',
                                         tool_call ''c3'' ''explode'' ''{}''])"
            agent_A "[]" _ _ "[tool_call ''c1'' ''remember'' ''{}'']"
            "tool_call ''c2'' ''lookup'' ''not json''" "[tool_call ''c3'' ''explode'' ''{}'']"
            example_JSON _ _ _ lookup_tool _ 0, OF _ _ g _ d1 f p]
          g d1 f p
    by (simp add: assistant_calls_def example_options_def zero_enat_def [symmetric]
          tool_call_def)
qed

text \<open>
  Claim C3, as stated, fails: the failure of a run on the payload \<open>not json\<close> is not
  tagged \<open>VALIDATION_ERROR\<close>.
\<close>

theorem malformed_arguments_not_validation_error:
  "run 1 example_JSON (example_swarm (assistant_calls [tool_call ''c1'' ''lookup'' ''not json'']))
     agent_A [user_hi] [] (example_options \<infinity>) =
     Some (\<lparr>success = False, data = None,
            error = Some (ErrorObject ''ToolExecutionError''
                ''Failed to execute tool lookup: Failed to parse function arguments: not json''
                (Some ''UNKNOWN_ERROR'') None)\<rparr>,
           [Requested (createParams agent_A [user_hi] None False)]) \<and>
   Some ''UNKNOWN_ERROR'' \<noteq> Some ''VALIDATION_ERROR''"
  by (simp add: example_defs engine_defs)

lemma handleToolCalls_loop_keeps:
  "handleToolCalls_loop J calls ag contextVars r = ((Inr r', evs), cv') \<Longrightarrow>
   agent r' = agent r \<and> contextVariables r' = contextVariables r"
proof -
  assume "handleToolCalls_loop J calls ag contextVars r = ((Inr r', evs), cv')"
  from handleToolCalls_loop_returns [OF this] obtain ms where
    "handleToolCalls_loop J calls ag contextVars r =
       ((Inr (r\<lparr>messages := messages r @ ms\<rparr>), evs), cv')"
    by blast
  with \<open>handleToolCalls_loop J calls ag contextVars r = ((Inr r', evs), cv')\<close>
  have "r' = r\<lparr>messages := messages r @ ms\<rparr>" by simp
  then show ?thesis by simp
qed

lemma handleToolCalls_never_hands_off:
  "handleToolCalls J calls ag contextVars = ((Inr r, evs), cv') \<Longrightarrow>
   \<exists>d. r = \<lparr>success = True, data = Some d, error = None\<rparr> \<and> agent d = None \<and>
       contextVariables d = spread contextVars"
  by (auto dest: handleToolCalls_returns)

text \<open>
  Claim C1 on the code. Agent \<open>A\<close> is asked for two tool calls: \<open>lookup\<close> returns the
  descriptor of agent \<open>B\<close> and \<open>remember\<close> returns an object with the context-variable
  mapping \<open>{user: "Ada"}\<close>. \<open>handleToolCalls\<close> reports no agent and the context
  variables it was given; the next completion request still carries the instructions of
  \<open>A\<close>, and the run reports \<open>A\<close> as the active agent and an unchanged context. The
  content of a tool message is the JSON text of what the tool returned. By the lemma
  before, \<open>handleToolCalls\<close> does so whatever the tools return.
\<close>

theorem handoff_is_not_adopted:
  "handleToolCalls example_JSON
     [tool_call ''c1'' ''lookup'' ''{}'', tool_call ''c2'' ''remember'' ''{}''] agent_A [] =
     ((Inr \<lparr>success = True,
            data = Some \<lparr>messages =
                           [\<lparr>role = Tool,
                             content = Some ''{\"name\":\"B\",\"model\":\"gpt-4o\",\"instructions\":\"You are B.\",\"functions\":[],\"parallelToolCalls\":false}'',
                             sender = None, tool_call_id = Some ''c1'', tool_calls = None\<rparr>,
                            \<lparr>role = Tool,
                             content = Some ''{\"value\":\"noted\",\"contextVariables\":{\"user\":\"Ada\"}}'',
                             sender = None, tool_call_id = Some ''c2'', tool_calls = None\<rparr>],
                         agent = None, contextVariables = []\<rparr>,
            error = None\<rparr>,
       [ToolInvoked ''lookup'' (JObj []), ToolInvoked ''remember'' (JObj [])]),
      []) \<and>
   run 2 example_JSON
     (example_swarm (assistant_calls [tool_call ''c1'' ''lookup'' ''{}'',
                                      tool_call ''c2'' ''remember'' ''{}'']))
     agent_A [user_hi] [] (example_options \<infinity>) =
     Some (\<lparr>success = True,
            data = Some \<lparr>messages =
                           [\<lparr>role = Assistant, content = None, sender = Some ''A'',
                             tool_call_id = None,
                             tool_calls = Some [tool_call ''c1'' ''lookup'' ''{}'',
                                                tool_call ''c2'' ''remember'' ''{}'']\<rparr>,
                            \<lparr>role = Tool,
                             content = Some ''{\"name\":\"B\",\"model\":\"gpt-4o\",\"instructions\":\"You are B.\",\"functions\":[],\"parallelToolCalls\":false}'',
                             sender = None, tool_call_id = Some ''c1'', tool_calls = None\<rparr>,
                            \<lparr>role = Tool,
                             content = Some ''{\"value\":\"noted\",\"contextVariables\":{\"user\":\"Ada\"}}'',
                             sender = None, tool_call_id = Some ''c2'', tool_calls = None\<rparr>,
                            \<lparr>role = Assistant, content = Some ''hello'', sender = Some ''A'',
                             tool_call_id = None, tool_calls = None\<rparr>],
                         agent = Some agent_A, contextVariables = []\<rparr>,
            error = None\<rparr>,
           [Requested
              \<lparr>req_model = ''gpt-4o'',
               req_messages =
                 [\<lparr>role = System, content = Some ''You are A.'', sender = None,
                   tool_call_id = None, tool_calls = None\<rparr>,
                  user_hi],
               req_stream = False, tools = Some [''lookup'', ''remember'', ''explode''],
               tool_choice = Some ChoiceAuto, parallel_tool_calls = Some False\<rparr>,
            ToolInvoked ''lookup'' (JObj []), ToolInvoked ''remember'' (JObj []),
            Requested
              \<lparr>req_model = ''gpt-4o'',
               req_messages =
                 [\<lparr>role = System, content = Some ''You are A.'', sender = None,
                   tool_call_id = None, tool_calls = None\<rparr>,
                  user_hi,
                  \<lparr>role = Assistant, content = None, sender = Some ''A'',
                   tool_call_id = None,
                   tool_calls = Some [tool_call ''c1'' ''lookup'' ''{}'',
                                      tool_call ''c2'' ''remember'' ''{}'']\<rparr>,
                  \<lparr>role = Tool,
                   content = Some ''{\"name\":\"B\",\"model\":\"gpt-4o\",\"instructions\":\"You are B.\",\"functions\":[],\"parallelToolCalls\":false}'',
                   sender = None, tool_call_id = Some ''c1'', tool_calls = None\<rparr>,
                  \<lparr>role = Tool,
                   content = Some ''{\"value\":\"noted\",\"contextVariables\":{\"user\":\"Ada\"}}'',
                   sender = None, tool_call_id = Some ''c2'', tool_calls = None\<rparr>],
               req_stream = False, tools = Some [''lookup'', ''remember'', ''explode''],
               tool_choice = Some ChoiceAuto, parallel_tool_calls = Some False\<rparr>]) \<and>
   invoke lookup_tool (JObj []) = Inr (Handoff agent_B) \<and>
   invoke remember_tool (JObj []) = Inr (ResultObject ''noted'' None [(''user'', JStr ''Ada'')]) \<and>
   instructions agent_B = Static ''You are B.''"
proof -
  have two: "(2::nat) = Suc (Suc 0)" by simp
  show ?thesis
    by (simp add: example_defs engine_defs two)
qed

lemma dispatch_tool_throws:
  assumes "find (\<lambda>f. func_name f = fn_name (func c)) (funcs ag) = Some f"
    and "and_then (parseArguments J (arguments (func c)))
           (\<lambda>args. if string_includes (toString f) CTX_VARS_NAME
                    then set_prop args CTX_VARS_NAME (JObj contextVars)
                    else Inr args) = Inr args"
    and "invoke f args = Inl e"
  shows "fst (dispatch J ag contextVars c) =
           (case message_text e of
              Inr reason \<Rightarrow>
                Inl (ToolExecutionError
                       (''Failed to execute tool '' @ fn_name (func c) @ '': '' @ reason)
                       (Some e))
            | Inl unreadable \<Rightarrow> Inl unreadable,
            [ToolInvoked (func_name f) args])"
  using assms
  by (simp add: dispatch_def execute_tool_def and_then_def split: sum.splits)

text \<open>
  Whenever the body of a registered tool throws, the run ends there, as a failure with
  the code \<open>UNKNOWN_ERROR\<close>: with the name of the tool-execution error when the
  message of what was thrown can be read, and else (a thrown \<open>undefined\<close> or \<open>null\<close>)
  as the \<open>TypeError\<close> of that read.
\<close>

lemma tool_exception_ends_run:
  assumes "enat (length history - initLen) < maxTurns opts" and "executeTools opts"
    and "getChatCompletion sw ag history contextVars (modelOverride opts) False =
           (Inr \<lparr>success = True, data = Some (ChatCompletion m), error = None\<rparr>, evs)"
    and "tool_calls m = Some (pre @ c # post)"
    and "handleToolCalls J pre ag contextVars = ((Inr r1, evs1), cv1)"
    and "find (\<lambda>f. func_name f = fn_name (func c)) (funcs ag) = Some f"
    and "and_then (parseArguments J (arguments (func c)))
           (\<lambda>args. if string_includes (toString f) CTX_VARS_NAME
                    then set_prop args CTX_VARS_NAME (JObj cv1)
                    else Inr args) = Inr args"
    and "invoke f args = Inl e"
  shows "run_loop (Suc fuel) J sw opts initLen ag history contextVars =
           Some (\<lparr>success = False, data = None,
                  error = Some (case message_text e of
                                  Inr reason \<Rightarrow>
                                    ErrorObject ''ToolExecutionError''
                                      (''Failed to execute tool '' @ fn_name (func c) @ '': '' @
                                       reason)
                                      (Some ''UNKNOWN_ERROR'') None
                                | Inl unreadable \<Rightarrow>
                                    ErrorObject ''TypeError'' (err_message unreadable)
                                      (Some ''UNKNOWN_ERROR'') None)\<rparr>,
                 evs @ evs1 @ [ToolInvoked (func_name f) args])"
proof -
  obtain res cv2 where d: "dispatch J ag cv1 c = ((res, [ToolInvoked (func_name f) args]), cv2)"
    using dispatch_tool_throws [OF assms(6,7,8)]
    by (cases "dispatch J ag cv1 c") auto
  show ?thesis
  proof (cases "message_text e")
    case (Inr reason)
    with dispatch_tool_throws [OF assms(6,7,8)] d
    have "dispatch J ag cv1 c =
            ((Inl (ToolExecutionError
                     (''Failed to execute tool '' @ fn_name (func c) @ '': '' @ reason)
                     (Some e)),
              [ToolInvoked (func_name f) args]), cv2)"
      by simp
    note h = handleToolCalls_throws_at [OF assms(5) this, of post]
    show ?thesis
      using assms(1) Inr
      by (simp add: turn_dispatches [OF assms(3,4,2)] h emit_def ToolExecutionError_def)
  next
    case (Inl unreadable)
    have te: "\<exists>msg. unreadable = TypeError msg"
    proof (cases e)
      case (ErrorObject n msg code cause)
      with Inl show ?thesis by simp
    next
      case (Value v)
      with Inl show ?thesis
        by (cases v) (auto simp: and_then_def)
    qed
    from Inl dispatch_tool_throws [OF assms(6,7,8)] d
    have "dispatch J ag cv1 c = ((Inl unreadable, [ToolInvoked (func_name f) args]), cv2)"
      by simp
    note h = handleToolCalls_throws_at [OF assms(5) this, of post]
    show ?thesis
      using assms(1) Inl te
      by (auto simp: turn_dispatches [OF assms(3,4,2)] h emit_def TypeError_def)
  qed
qed

text \<open>
  Claim C2 on the code. The tool \<open>explode\<close> throws: \<open>handleToolCalls\<close> throws the
  error tagged \<open>TOOL_EXECUTION_ERROR\<close>, and the run fails after the throwing call, with
  nothing invoked or requested after it; but the error that \<open>run\<close> returns carries the
  name of the tool-execution error and the code \<open>UNKNOWN_ERROR\<close>.
\<close>

theorem tool_exception_is_tagged_unknown:
  "fst (fst (handleToolCalls example_JSON [tool_call ''c1'' ''explode'' ''{}''] agent_A [])) =
     Inl (ErrorObject ''ToolExecutionError'' ''Failed to execute tool explode: kaput''
            (Some ''TOOL_EXECUTION_ERROR'') (Some (Error ''kaput''))) \<and>
   run 1 example_JSON (example_swarm (assistant_calls [tool_call ''c1'' ''explode'' ''{}'']))
     agent_A [user_hi] [] (example_options \<infinity>) =
     Some (\<lparr>success = False, data = None,
            error = Some (ErrorObject ''ToolExecutionError''
                            ''Failed to execute tool explode: kaput''
                            (Some ''UNKNOWN_ERROR'') None)\<rparr>,
           [Requested (createParams agent_A [user_hi] None False),
            ToolInvoked ''explode'' (JObj [])]) \<and>
   invoke failing_tool (JObj []) = Inl (Error ''kaput'')"
proof -
  have thrown: "handleToolCalls example_JSON [tool_call ''c1'' ''explode'' ''{}''] agent_A [] =
     ((Inl (ErrorObject ''ToolExecutionError'' ''Failed to execute tool explode: kaput''
             (Some ''TOOL_EXECUTION_ERROR'') (Some (Error ''kaput''))),
       [ToolInvoked ''explode'' (JObj [])]),
      [])"
    by (simp add: example_defs engine_defs)
  have asked: "getChatCompletion
                 (example_swarm (assistant_calls [tool_call ''c1'' ''explode'' ''{}'']))
                 agent_A [user_hi] [] (modelOverride (example_options \<infinity>)) False =
     (Inr \<lparr>success = True,
           data = Some (ChatCompletion (assistant_calls [tool_call ''c1'' ''explode'' ''{}''])),
           error = None\<rparr>,
      [Requested (createParams agent_A [user_hi] None False)])"
    by (simp add: getChatCompletion_once example_swarm_def provider_def createParams_def
          completed_def example_options_def)
  have calls: "tool_calls (assistant_calls [tool_call ''c1'' ''explode'' ''{}'']) =
                 Some [tool_call ''c1'' ''explode'' ''{}'']"
    by (simp add: assistant_calls_def)
  have execute: "executeTools (example_options \<infinity>)"
    by (simp add: example_options_def)
  have "turn example_JSON (example_swarm (assistant_calls [tool_call ''c1'' ''explode'' ''{}'']))
          (example_options \<infinity>) 1 agent_A [user_hi] [] =
        (Done \<lparr>success = False, data = None,
               error = Some (ErrorObject ''ToolExecutionError''
                               ''Failed to execute tool explode: kaput''
                               (Some ''UNKNOWN_ERROR'') None)\<rparr>,
         [Requested (createParams agent_A [user_hi] None False),
          ToolInvoked ''explode'' (JObj [])])"
    unfolding turn_dispatches [OF asked calls execute]
    by (simp add: thrown emit_def Error_def)
  then have "run 1 example_JSON
               (example_swarm (assistant_calls [tool_call ''c1'' ''explode'' ''{}'']))
               agent_A [user_hi] [] (example_options \<infinity>) =
     Some (\<lparr>success = False, data = None,
            error = Some (ErrorObject ''ToolExecutionError''
                            ''Failed to execute tool explode: kaput''
                            (Some ''UNKNOWN_ERROR'') None)\<rparr>,
           [Requested (createParams agent_A [user_hi] None False),
            ToolInvoked ''explode'' (JObj [])])"
    by (simp add: run_def spread_def Object_assign_def example_options_def
          zero_enat_def [symmetric])
  then show ?thesis
    using thrown by (simp add: failing_tool_def)
qed

text \<open>
  Whenever the loop of the generator is entered and the first completion request
  succeeds, \<open>runStream\<close> returns the empty success.
\<close>

lemma runStream_after_first_event:
  assumes "0 < maxTurns opts"
    and "getChatCompletion sw ag msgs (spread contextVars) (modelOverride opts) True =
           (Inr completion, evs)"
    and "success completion"
  shows "runStream sw ag msgs contextVars opts =
           (\<lparr>success = True,
             data = Some \<lparr>messages = [], agent = None, contextVariables = []\<rparr>,
             error = None\<rparr>, evs)"
  using assms
  by (simp add: runStream_def streamGenerator_first_next_def zero_enat_def [symmetric])

text \<open>
  Claim C4 on the code. The provider answers the non-streaming request with \<open>hello\<close>
  and the streaming request with the one delta \<open>hello\<close>, which \<open>mergeChunk\<close> reassembles
  to the same content. \<open>run\<close> returns the message and agent \<open>A\<close>; \<open>runStream\<close> (and
  \<open>run\<close> with the \<open>stream\<close> option) returns the empty placeholder after the first
  event, without the message and with no agent.
\<close>

theorem runStream_returns_placeholder:
  "run 1 example_JSON (example_swarm assistant_hello) agent_A [user_hi] []
     (example_options \<infinity>) =
     Some (\<lparr>success = True,
            data = Some \<lparr>messages =
                           [\<lparr>role = Assistant, content = Some ''hello'', sender = Some ''A'',
                             tool_call_id = None, tool_calls = None\<rparr>],
                         agent = Some agent_A, contextVariables = []\<rparr>,
            error = None\<rparr>,
           [Requested (createParams agent_A [user_hi] None False)]) \<and>
   runStream (example_swarm assistant_hello) agent_A [user_hi] [] (example_options \<infinity>) =
     (\<lparr>success = True,
       data = Some \<lparr>messages = [], agent = None, contextVariables = []\<rparr>,
       error = None\<rparr>,
      [Requested (createParams agent_A [user_hi] None True)]) \<and>
   run 1 example_JSON (example_swarm assistant_hello) agent_A [user_hi] []
     ((example_options \<infinity>)\<lparr>stream := True\<rparr>) =
     Some (\<lparr>success = True,
            data = Some \<lparr>messages = [], agent = None, contextVariables = []\<rparr>,
            error = None\<rparr>,
           [Requested (createParams agent_A [user_hi] None True)]) \<and>
   client (example_swarm assistant_hello) (createParams agent_A [user_hi] None True) =
     \<lparr>success = True, data = Some (ChunkStream [JObj [(''content'', JStr ''hello'')]]),
      error = None\<rparr> \<and>
   mergeChunk initial_message (JObj [(''content'', JStr ''hello'')]) =
     Inr (JObj [(''content'', JStr ''hello''), (''sender'', JStr ''A''),
                (''role'', JStr ''assistant''), (''tool_calls'', JNull)])"
  by (simp add: example_defs engine_defs runStream_def streamGenerator_first_next_def
        initial_message_def mergeChunk_def concat_onto_def)

lemma string_of_nat_0: "string_of_nat 0 = ''0''"
  by (simp add: string_of_nat.simps)

lemma string_of_nat_1: "string_of_nat (Suc 0) = ''1''"
  by (simp add: string_of_nat.simps)

text \<open>
  Claim C7 on the code. Starting from the accumulator of a streamed turn, the first
  chunk (index 0, id \<open>abc\<close>, empty arguments) and then the second (index 0, no id,
  arguments \<open>{}\<close>): the record at index 0 keeps the id \<open>abc\<close>, but its arguments are
  \<open>{}{}\<close>. The fragment is merged twice, once by the \<open>mergeFields\<close> of the whole delta,
  which descends into the \<open>tool_calls\<close> array and merges the fragment under its array
  position, and once by the \<open>mergeFields\<close> of the fragment under its index. For the
  same reason a chunk that opens the tool call of index 1 appends its id to the id of
  the record at index 0, which becomes \<open>abcxyz\<close>.
\<close>

theorem mergeChunk_doubles_arguments:
  "mergeChunk initial_message chunk_1 =
     Inr (JObj [(''content'', JStr []), (''sender'', JStr ''A''),
                (''role'', JStr ''assistant''),
                (''tool_calls'',
                 JObj [(''0'', JObj [(''id'', JStr ''abc''),
                                     (''function'', JObj [(''arguments'', JStr [])])])])]) \<and>
   mergeChunk
     (JObj [(''content'', JStr []), (''sender'', JStr ''A''),
            (''role'', JStr ''assistant''),
            (''tool_calls'',
             JObj [(''0'', JObj [(''id'', JStr ''abc''),
                                 (''function'', JObj [(''arguments'', JStr [])])])])])
     chunk_2 =
     Inr (JObj [(''content'', JStr []), (''sender'', JStr ''A''),
                (''role'', JStr ''assistant''),
                (''tool_calls'',
                 JObj [(''0'', JObj [(''id'', JStr ''abc''),
                                     (''function'',
                                      JObj [(''arguments'', JStr ''{}{}'')])])])]) \<and>
   mergeChunk
     (JObj [(''content'', JStr []), (''sender'', JStr ''A''),
            (''role'', JStr ''assistant''),
            (''tool_calls'',
             JObj [(''0'', JObj [(''id'', JStr ''abc''),
                                 (''function'', JObj [(''arguments'', JStr [])])])])])
     chunk_3 =
     Inr (JObj [(''content'', JStr []), (''sender'', JStr ''A''),
                (''role'', JStr ''assistant''),
                (''tool_calls'',
                 JObj [(''0'', JObj [(''id'', JStr ''abcxyz''),
                                     (''function'', JObj [(''arguments'', JStr [])])]),
                       (''1'', JObj [(''function'',
                                      JObj [(''arguments'', JStr []), (''name'', JStr [])]),
                                     (''id'', JStr ''xyz''), (''type'', JStr [])])])])"
proof -
  note merge_defs = mergeChunk_def and_then_def concat_onto_def ensure_object_def js_or_def
    indexed_def string_of_nat_0 string_of_nat_1
  have first: "mergeChunk initial_message chunk_1 =
     Inr (JObj [(''content'', JStr []), (''sender'', JStr ''A''),
                (''role'', JStr ''assistant''),
                (''tool_calls'',
                 JObj [(''0'', JObj [(''id'', JStr ''abc''),
                                     (''function'', JObj [(''arguments'', JStr [])])])])])"
    by (simp add: initial_message_def chunk_1_def merge_defs)
  have second: "mergeChunk
     (JObj [(''content'', JStr []), (''sender'', JStr ''A''),
            (''role'', JStr ''assistant''),
            (''tool_calls'',
             JObj [(''0'', JObj [(''id'', JStr ''abc''),
                                 (''function'', JObj [(''arguments'', JStr [])])])])])
     chunk_2 =
     Inr (JObj [(''content'', JStr []), (''sender'', JStr ''A''),
                (''role'', JStr ''assistant''),
                (''tool_calls'',
                 JObj [(''0'', JObj [(''id'', JStr ''abc''),
                                     (''function'',
                                      JObj [(''arguments'', JStr ''{}{}'')])])])])"
    by (simp add: chunk_2_def merge_defs)
  have other: "mergeChunk
     (JObj [(''content'', JStr []), (''sender'', JStr ''A''),
            (''role'', JStr ''assistant''),
            (''tool_calls'',
             JObj [(''0'', JObj [(''id'', JStr ''abc''),
                                 (''function'', JObj [(''arguments'', JStr [])])])])])
     chunk_3 =
     Inr (JObj [(''content'', JStr []), (''sender'', JStr ''A''),
                (''role'', JStr ''assistant''),
                (''tool_calls'',
                 JObj [(''0'', JObj [(''id'', JStr ''abcxyz''),
                                     (''function'', JObj [(''arguments'', JStr [])])]),
                       (''1'', JObj [(''function'',
                                      JObj [(''arguments'', JStr []), (''name'', JStr [])]),
                                     (''id'', JStr ''xyz''), (''type'', JStr [])])])])"
    by (simp add: chunk_3_def merge_defs)
  from first second other show ?thesis by simp
qed

section \<open>The arrays and objects of the caller\<close>

lemma array_at_update [simp]:
  "a < length h \<Longrightarrow> array_at (h[a := MessageArray ms]) a = ms"
  by (simp add: array_at_def)

lemma array_at_update_other [simp]:
  "a \<noteq> b \<Longrightarrow> array_at (h[a := x]) b = array_at h b"
  by (simp add: array_at_def)

lemma object_at_update [simp]:
  "a < length h \<Longrightarrow> object_at (h[a := VariablesObject vs]) a = vs"
  by (simp add: object_at_def)

lemma object_at_update_other [simp]:
  "a \<noteq> b \<Longrightarrow> object_at (h[a := x]) b = object_at h b"
  by (simp add: object_at_def)

lemma array_at_append [simp]: "a < length h \<Longrightarrow> array_at (h @ xs) a = array_at h a"
  by (simp add: array_at_def nth_append)

lemma object_at_append [simp]: "a < length h \<Longrightarrow> object_at (h @ xs) a = object_at h a"
  by (simp add: object_at_def nth_append)

lemma array_at_new [simp]: "array_at (h @ [MessageArray ms]) (length h) = ms"
  by (simp add: array_at_def)

lemma object_at_new [simp]: "object_at (h @ [VariablesObject vs]) (length h) = vs"
  by (simp add: object_at_def)

lemma object_at_cell: "c < length h \<Longrightarrow> h ! c = VariablesObject vs \<Longrightarrow> object_at h c = vs"
  by (simp add: object_at_def)

lemma array_at_cell: "a < length h \<Longrightarrow> h ! a = MessageArray ms \<Longrightarrow> array_at h a = ms"
  by (simp add: array_at_def)

text \<open>
  The loop of \<open>handleToolCalls\<close> over the store writes to the accumulator's array
  and, through the tools, to the context object it was called with, and to no other
  cell; it computes what the loop on the contents computes.
\<close>

lemma handleToolCalls_loop_st_refines:
  assumes "messages_ref response < length h" and "c < length h"
    and "messages_ref response \<noteq> c"
    and "messages_ref response \<noteq> contextVariables_ref response"
    and "contextVariables_ref response \<noteq> c"
    and "h ! c = VariablesObject cv"
  shows "\<exists>cv'. length (snd (handleToolCalls_loop_st J calls ag c response h)) = length h \<and>
         (\<forall>i. i \<noteq> messages_ref response \<longrightarrow> i \<noteq> c \<longrightarrow>
              snd (handleToolCalls_loop_st J calls ag c response h) ! i = h ! i) \<and>
         snd (handleToolCalls_loop_st J calls ag c response h) ! c = VariablesObject cv' \<and>
         handleToolCalls_loop J calls ag cv (deref h response) =
           ((map_sum (\<lambda>e. e) (deref (snd (handleToolCalls_loop_st J calls ag c response h)))
               (fst (fst (handleToolCalls_loop_st J calls ag c response h))),
             snd (fst (handleToolCalls_loop_st J calls ag c response h))),
            cv')"
  using assms
proof (induction calls arbitrary: h cv)
  case Nil
  then show ?case by simp
next
  case (Cons call calls)
  let ?rm = "messages_ref response"
  have read: "object_at h c = cv"
    using Cons.prems(2,6) by (rule object_at_cell)
  obtain res evs cv1 where d: "dispatch J ag cv call = ((res, evs), cv1)"
    by (cases "dispatch J ag cv call") auto
  let ?h1 = "h[c := VariablesObject cv1]"
  have ds: "dispatch_st J ag c call h = ((res, evs), ?h1)"
    using d read by (simp add: dispatch_st_def)
  have h1c: "?h1 ! c = VariablesObject cv1" using Cons.prems(2) by simp
  show ?case
  proof (cases res)
    case (Inl e)
    with d ds h1c show ?thesis by simp
  next
    case (Inr m)
    let ?h2 = "?h1[?rm := MessageArray (array_at ?h1 ?rm @ [m])]"
    have len: "?rm < length ?h2" "c < length ?h2" using Cons.prems(1,2) by simp_all
    have h2c: "?h2 ! c = VariablesObject cv1"
      using Cons.prems(2,3) by simp
    note IH = Cons.IH [OF len Cons.prems(3,4,5) h2c]
    have r: "deref ?h2 response =
               (deref h response)\<lparr>messages := messages (deref h response) @ [m]\<rparr>"
      using Cons.prems(1,3,4,5) by (simp add: deref_def)
    obtain p h' where l: "handleToolCalls_loop_st J calls ag c response ?h2 = (p, h')"
      by (cases "handleToolCalls_loop_st J calls ag c response ?h2")
    from IH l r obtain cv' where
      "length h' = length h"
      "\<forall>i. i \<noteq> ?rm \<longrightarrow> i \<noteq> c \<longrightarrow> h' ! i = ?h2 ! i"
      "h' ! c = VariablesObject cv'"
      "handleToolCalls_loop J calls ag cv1
         ((deref h response)\<lparr>messages := messages (deref h response) @ [m]\<rparr>) =
       ((map_sum (\<lambda>e. e) (deref h') (fst p), snd p), cv')"
      by auto
    then show ?thesis using d ds Inr l
      by (intro exI [of _ cv']) (simp add: emit_def)
  qed
qed

lemma handleToolCalls_loop_st_response:
  "fst (fst (handleToolCalls_loop_st J calls ag c response h)) = Inr r \<Longrightarrow> r = response"
proof (induction calls arbitrary: h)
  case Nil
  then show ?case by simp
next
  case (Cons call calls)
  obtain res evs h1 where d: "dispatch_st J ag c call h = ((res, evs), h1)"
    by (cases "dispatch_st J ag c call h") auto
  show ?case
  proof (cases res)
    case (Inl e)
    with d Cons.prems show ?thesis by simp
  next
    case (Inr m)
    let ?h2 = "h1[messages_ref response :=
                    MessageArray (array_at h1 (messages_ref response) @ [m])]"
    obtain p h' where l: "handleToolCalls_loop_st J calls ag c response ?h2 = (p, h')"
      by (cases "handleToolCalls_loop_st J calls ag c response ?h2")
    with d Inr Cons.prems have "fst p = Inr r" by (simp add: emit_def)
    with l Cons.IH [of ?h2] show ?thesis by simp
  qed
qed

lemma handleToolCalls_st_refines:
  assumes "c < length h" and "h ! c = VariablesObject cv"
  shows "\<exists>cv'. length (snd (handleToolCalls_st J calls ag c h)) = length h + 2 \<and>
         (\<forall>i < length h. i \<noteq> c \<longrightarrow> snd (handleToolCalls_st J calls ag c h) ! i = h ! i) \<and>
         snd (handleToolCalls_st J calls ag c h) ! c = VariablesObject cv' \<and>
         handleToolCalls J calls ag cv =
           ((map_sum (\<lambda>e. e) (deref_result (snd (handleToolCalls_st J calls ag c h)))
               (fst (fst (handleToolCalls_st J calls ag c h))),
             snd (fst (handleToolCalls_st J calls ag c h))),
            cv') \<and>
         (\<forall>r d. fst (fst (handleToolCalls_st J calls ag c h)) = Inr r \<longrightarrow> data r = Some d \<longrightarrow>
            messages_ref d = length h \<and> contextVariables_ref d = Suc (length h))"
proof -
  have read: "object_at h c = cv" using assms by (rule object_at_cell)
  let ?h2 = "(h @ [MessageArray []]) @ [VariablesObject (spread cv)]"
  let ?response = "\<lparr>messages_ref = length h, agent_ref = None,
                     contextVariables_ref = Suc (length h)\<rparr>"
  have pre: "messages_ref ?response < length ?h2" "c < length ?h2"
    "messages_ref ?response \<noteq> c"
    "messages_ref ?response \<noteq> contextVariables_ref ?response"
    "contextVariables_ref ?response \<noteq> c"
    "?h2 ! c = VariablesObject cv"
    using assms by (simp_all add: nth_append)
  note L = handleToolCalls_loop_st_refines [OF pre, of J calls ag]
  have r: "deref ?h2 ?response =
             \<lparr>messages = [], agent = None, contextVariables = spread cv\<rparr>"
    by (simp add: deref_def array_at_def object_at_def nth_append)
  obtain res evs h' where l:
    "handleToolCalls_loop_st J calls ag c ?response ?h2 = ((res, evs), h')"
    by (cases "handleToolCalls_loop_st J calls ag c ?response ?h2") auto
  from L l r obtain cv' where len: "length h' = length h + 2"
    and frame: "\<forall>i. i \<noteq> length h \<longrightarrow> i \<noteq> c \<longrightarrow> h' ! i = ?h2 ! i"
    and h'c: "h' ! c = VariablesObject cv'"
    and pure: "handleToolCalls_loop J calls ag cv
                 \<lparr>messages = [], agent = None, contextVariables = spread cv\<rparr> =
               ((map_sum (\<lambda>e. e) (deref h') res, evs), cv')"
    by auto
  have st: "handleToolCalls_st J calls ag c h =
              ((case res of Inl e \<Rightarrow> Inl e
                | Inr response \<Rightarrow> Inr \<lparr>success = True, data = Some response, error = None\<rparr>,
                evs), h')"
    using l assms(1) read by (simp add: handleToolCalls_st_def alloc_def split: sum.splits)
  have only: "\<forall>response. res = Inr response \<longrightarrow> response = ?response"
  proof (intro allI impI)
    fix response assume "res = Inr response"
    with l handleToolCalls_loop_st_response [of J calls ag c ?response ?h2 response]
    show "response = ?response" by simp
  qed
  have f: "\<forall>i < length h. i \<noteq> c \<longrightarrow> h' ! i = h ! i"
    using frame by (simp add: nth_append)
  show ?thesis
    using st len f h'c pure only
    by (intro exI [of _ cv']) (cases res; auto simp: handleToolCalls_def deref_result_def)
qed

lemma turn_st_refines:
  assumes a: "a < length h" and c: "c < length h"
    and ha: "h ! a = MessageArray hist" and hc: "h ! c = VariablesObject contextVars"
  shows "length h \<le> length (snd (turn_st J sw opts initLen ag a c h)) \<and>
         (\<forall>i < length h. i \<noteq> a \<longrightarrow> i \<noteq> c \<longrightarrow>
            snd (turn_st J sw opts initLen ag a c h) ! i = h ! i) \<and>
         (\<exists>hist' contextVars'.
            snd (turn_st J sw opts initLen ag a c h) ! a = MessageArray hist' \<and>
            snd (turn_st J sw opts initLen ag a c h) ! c = VariablesObject contextVars' \<and>
            turn J sw opts initLen ag hist contextVars =
              (case fst (fst (turn_st J sw opts initLen ag a c h)) of
                 Ended r \<Rightarrow> Done r
               | Goes_on ag' \<Rightarrow> Continue ag' hist' contextVars',
               snd (fst (turn_st J sw opts initLen ag a c h))))"
proof -
  have ac: "a \<noteq> c" using ha hc by auto
  have reads: "array_at h a = hist" "object_at h c = contextVars"
    using a c ha hc by (simp_all add: array_at_def object_at_def)
  obtain res evs where g:
    "getChatCompletion sw ag hist contextVars (modelOverride opts) False = (res, evs)"
    by (cases "getChatCompletion sw ag hist contextVars (modelOverride opts) False")
  show ?thesis
  proof (cases res)
    case (Inl e)
    with g reads ha hc show ?thesis by (simp add: turn_st_def turn_def)
  next
    case (Inr completion)
    note res = this
    show ?thesis
    proof (cases "success completion")
      case False
      with g res reads ha hc show ?thesis by (simp add: turn_st_def turn_def)
    next
      case ok: True
      show ?thesis
      proof (cases "data completion")
        case None
        with g res ok reads ha hc show ?thesis by (simp add: turn_st_def turn_def)
      next
        case (Some payload)
        show ?thesis
        proof (cases payload)
          case (ChunkStream deltas)
          with g res ok Some reads ha hc show ?thesis by (simp add: turn_st_def turn_def)
        next
          case (ChatCompletion m)
          let ?message = "m\<lparr>sender := Some (name ag)\<rparr>"
          let ?h1 = "h[a := MessageArray (hist @ [?message])]"
          have h1: "array_at ?h1 a = hist @ [?message]" "object_at ?h1 c = contextVars"
            "?h1 ! a = MessageArray (hist @ [?message])" "?h1 ! c = VariablesObject contextVars"
            "length ?h1 = length h"
            using a c ac reads hc by simp_all
          show ?thesis
          proof (cases "tool_calls m")
            case None
            with g res ok Some ChatCompletion reads h1 show ?thesis
              by (simp add: turn_st_def turn_def Let_def)
          next
            case calls: (Some calls)
            show ?thesis
            proof (cases "executeTools opts")
              case False
              with g res ok Some ChatCompletion calls reads h1 show ?thesis
                by (simp add: turn_st_def turn_def Let_def)
            next
              case True
              have c1: "c < length ?h1" using c by simp
              note R = handleToolCalls_st_refines [OF c1 h1(4), of J calls ag]
              obtain tr evs' h' where hs:
                "handleToolCalls_st J calls ag c ?h1 = ((tr, evs'), h')"
                by (cases "handleToolCalls_st J calls ag c ?h1") auto
              from R hs h1 obtain cv' where len: "length h' = length h + 2"
                and frame: "\<forall>i < length h. i \<noteq> c \<longrightarrow> h' ! i = ?h1 ! i"
                and h'c: "h' ! c = VariablesObject cv'"
                and pure: "handleToolCalls J calls ag contextVars =
                             ((map_sum (\<lambda>e. e) (deref_result h') tr, evs'), cv')"
                and refs: "\<forall>r d. tr = Inr r \<longrightarrow> data r = Some d \<longrightarrow>
                             messages_ref d = length h \<and> contextVariables_ref d = Suc (length h)"
                by auto
              have h'a: "h' ! a = MessageArray (hist @ [?message])"
                using frame a ac h1 by simp
              have reads': "array_at h' a = hist @ [?message]" "object_at h' c = cv'"
                using h'a h'c a c len by (simp_all add: array_at_def object_at_def)
              have st: "turn_st J sw opts initLen ag a c h =
                (case tr of
                   Inl e \<Rightarrow> ((Ended (caught e), evs @ evs'), h')
                 | Inr toolResult \<Rightarrow>
                     (case data toolResult of
                        None \<Rightarrow> ((Ended (deref_result h' toolResult), evs @ evs'), h')
                      | Some d \<Rightarrow>
                          if \<not> success toolResult
                          then ((Ended (deref_result h' toolResult), evs @ evs'), h')
                          else ((Goes_on (case agent_ref d of Some b \<Rightarrow> b | None \<Rightarrow> ag),
                                 evs @ evs'),
                                (h'[a := MessageArray
                                          (array_at h' a @ array_at h' (messages_ref d))])
                                  [c := VariablesObject
                                          (Object_assign (object_at h' c)
                                             (object_at h' (contextVariables_ref d)))])))"
                using g res ok Some ChatCompletion calls True reads hs
                by (simp add: turn_st_def Let_def)
              have pu: "turn J sw opts initLen ag hist contextVars =
                emit evs
                  (case map_sum (\<lambda>e. e) (deref_result h') tr of
                     Inl e \<Rightarrow> (Done (caught e), evs')
                   | Inr toolResult \<Rightarrow>
                       (case data toolResult of
                          None \<Rightarrow> (Done toolResult, evs')
                        | Some d \<Rightarrow>
                            if \<not> success toolResult then (Done toolResult, evs')
                            else (Continue (case agent d of Some b \<Rightarrow> b | None \<Rightarrow> ag)
                                    ((hist @ [?message]) @ messages d)
                                    (Object_assign cv' (contextVariables d)),
                                  evs')))"
                using g res ok Some ChatCompletion calls True pure
                by (simp add: turn_def Let_def)
              have fr: "\<forall>i < length h. i \<noteq> a \<longrightarrow> i \<noteq> c \<longrightarrow> h' ! i = h ! i"
                using frame by simp
              show ?thesis
              proof (cases tr)
                case (Inl e)
                with st pu len fr h'a h'c a c ac show ?thesis
                  by (simp add: emit_def)
              next
                case (Inr toolResult)
                note tr = this
                show ?thesis
                proof (cases "data toolResult")
                  case None
                  with st pu tr len fr h'a h'c a c ac show ?thesis
                    by (simp add: emit_def deref_result_def)
                next
                  case d: (Some d)
                  show ?thesis
                  proof (cases "success toolResult")
                    case False
                    with st pu tr d len fr h'a h'c a c ac show ?thesis
                      by (simp add: emit_def deref_result_def)
                  next
                    case True
                    from refs tr d have rd: "messages_ref d = length h"
                      "contextVariables_ref d = Suc (length h)" by simp_all
                    let ?h2 = "(h'[a := MessageArray (array_at h' a @ array_at h' (messages_ref d))])
                                  [c := VariablesObject
                                          (Object_assign (object_at h' c)
                                             (object_at h' (contextVariables_ref d)))]"
                    have s2: "turn_st J sw opts initLen ag a c h =
                      ((Goes_on (case agent_ref d of Some b \<Rightarrow> b | None \<Rightarrow> ag), evs @ evs'),
                       ?h2)"
                      using st tr d True by simp
                    have p2: "turn J sw opts initLen ag hist contextVars =
                      (Continue (case agent_ref d of Some b \<Rightarrow> b | None \<Rightarrow> ag)
                         ((hist @ [?message]) @ array_at h' (messages_ref d))
                         (Object_assign cv' (object_at h' (contextVariables_ref d))),
                       evs @ evs')"
                      using pu tr d True by (simp add: emit_def deref_result_def deref_def)
                    have l2: "length ?h2 = length h + 2" using len by simp
                    have f2: "\<forall>i < length h. i \<noteq> a \<longrightarrow> i \<noteq> c \<longrightarrow> ?h2 ! i = h ! i"
                      using fr by simp
                    have a2: "?h2 ! a = MessageArray ((hist @ [?message]) @
                                 array_at h' (messages_ref d))"
                      using a ac len reads' by simp
                    have c2: "?h2 ! c = VariablesObject
                                (Object_assign cv' (object_at h' (contextVariables_ref d)))"
                      using c len reads' by simp
                    show ?thesis
                      unfolding s2 p2 using l2 f2 a2 c2 by simp
                  qed
                qed
              qed
            qed
          qed
        qed
      qed
    qed
  qed
qed


lemma run_loop_st_refines:
  assumes "a < length h" and "c < length h"
    and "h ! a = MessageArray hist" and "h ! c = VariablesObject contextVars"
  shows "length h \<le> length (snd (run_loop_st fuel J sw opts initLen ag a c h)) \<and>
         (\<forall>i < length h. i \<noteq> a \<longrightarrow> i \<noteq> c \<longrightarrow>
            snd (run_loop_st fuel J sw opts initLen ag a c h) ! i = h ! i) \<and>
         fst (run_loop_st fuel J sw opts initLen ag a c h) =
           run_loop fuel J sw opts initLen ag hist contextVars"
  using assms
proof (induction fuel arbitrary: ag h hist contextVars)
  case 0
  then show ?case by (simp add: array_at_def object_at_def)
next
  case (Suc fuel)
  have reads: "array_at h a = hist" "object_at h c = contextVars"
    using Suc.prems by (simp_all add: array_at_def object_at_def)
  show ?case
  proof (cases "enat (length hist - initLen) < maxTurns opts")
    case False
    with reads show ?thesis by simp
  next
    case True
    obtain te evs h' where t: "turn_st J sw opts initLen ag a c h = ((te, evs), h')"
      by (cases "turn_st J sw opts initLen ag a c h") auto
    from turn_st_refines [OF Suc.prems, of J sw opts initLen ag] t
    obtain hist' contextVars' where len: "length h \<le> length h'"
      and frame: "\<forall>i < length h. i \<noteq> a \<longrightarrow> i \<noteq> c \<longrightarrow> h' ! i = h ! i"
      and h'a: "h' ! a = MessageArray hist'" and h'c: "h' ! c = VariablesObject contextVars'"
      and pure: "turn J sw opts initLen ag hist contextVars =
                   (case te of Ended r \<Rightarrow> Done r | Goes_on ag' \<Rightarrow> Continue ag' hist' contextVars',
                    evs)"
      by auto
    show ?thesis
    proof (cases te)
      case (Ended r)
      with True reads t len frame pure show ?thesis by simp
    next
      case (Goes_on ag')
      have a': "a < length h'" and c': "c < length h'"
        using Suc.prems(1,2) len by simp_all
      note IH = Suc.IH [OF a' c' h'a h'c, of ag']
      obtain r h'' where l: "run_loop_st fuel J sw opts initLen ag' a c h' = (r, h'')"
        by (cases "run_loop_st fuel J sw opts initLen ag' a c h'")
      with IH have "length h' \<le> length h''"
        "\<forall>i < length h'. i \<noteq> a \<longrightarrow> i \<noteq> c \<longrightarrow> h'' ! i = h' ! i"
        "r = run_loop fuel J sw opts initLen ag' hist' contextVars'"
        by simp_all
      with Goes_on True reads t len frame pure l show ?thesis by simp
    qed
  qed
qed

lemma runStream_st_refines:
  assumes "pm < length h" and "pc < length h"
    and "h ! pm = MessageArray msgs" and "h ! pc = VariablesObject contextVars"
  shows "take (length h) (snd (runStream_st sw ag pm pc opts h)) = h \<and>
         fst (runStream_st sw ag pm pc opts h) = runStream sw ag msgs contextVars opts"
proof -
  have reads: "array_at h pm = msgs" "object_at h pc = contextVars"
    using assms by (simp_all add: array_at_def object_at_def)
  let ?h1 = "h @ [VariablesObject (spread contextVars)]"
  have r1: "array_at ?h1 pm = msgs" using assms(1) reads by simp
  let ?h2 = "?h1 @ [MessageArray msgs]"
  have r2: "array_at ?h2 (Suc (length h)) = msgs" "object_at ?h2 (length h) = spread contextVars"
    "array_at ?h2 pm = msgs"
    using assms(1) reads by (simp_all add: array_at_def object_at_def nth_append)
  show ?thesis
    using reads r1 r2
    by (simp add: runStream_st_def runStream_def streamGenerator_first_next_st_def
          streamGenerator_first_next_def alloc_def Let_def
          split: prod.splits sum.splits iterator_result.splits)
qed

text \<open>
  The copies matter. The loop of \<open>run\<close> started on the caller's own array and object,
  in place of copies of them, with a tool that writes to the context object: afterwards
  the caller's array holds the messages of the run and the caller's object the property
  the tool has set.
\<close>

lemma loop_on_caller_cells_writes_them:
  "snd (run_loop_st 2 example_JSON
          (example_swarm (assistant_calls [tool_call ''c1'' ''note'' ''{}'']))
          (example_options \<infinity>) 1 agent_W 0 1
          [MessageArray [user_hi], VariablesObject [(''k'', JNum 1)]]) =
     [MessageArray
        [user_hi,
         \<lparr>role = Assistant, content = None, sender = Some ''W'', tool_call_id = None,
          tool_calls = Some [tool_call ''c1'' ''note'' ''{}'']\<rparr>,
         \<lparr>role = Tool, content = Some ''ok'', sender = None,
          tool_call_id = Some ''c1'', tool_calls = None\<rparr>,
         \<lparr>role = Assistant, content = Some ''hello'', sender = Some ''W'',
          tool_call_id = None, tool_calls = None\<rparr>],
      VariablesObject [(''k'', JNum 1), (''j'', JNum 3)],
      MessageArray
        [\<lparr>role = Tool, content = Some ''ok'', sender = None,
          tool_call_id = Some ''c1'', tool_calls = None\<rparr>],
      VariablesObject [(''k'', JNum 1)]]"
proof -
  have two: "(2::nat) = Suc (Suc 0)" by simp
  show ?thesis
    by (simp add: example_defs engine_defs two alloc_def turn_st_def dispatch_st_def
          handleToolCalls_st_def array_at_def object_at_def nth_append Let_def)
qed

text \<open>
  Claim C9. A run called with the addresses of the caller's message array and
  context-variable object, in any store, run on any fuel, with tools that may write to
  the context object they are handed: every cell that existed at entry, the caller's two
  among them, holds at every point what it held at entry (the run, and the tools
  through it, write to the cells that the run allocated only), whether the run has
  returned a success, a failure, or has not returned yet; and the run over the store
  computes what \<open>run\<close> on the contents of the two cells computes, so the copies taken at
  entry carry the caller's messages and top-level entries.
\<close>

theorem run_keeps_caller_inputs:
  assumes "pm < length h" and "pc < length h"
    and "h ! pm = MessageArray msgs" and "h ! pc = VariablesObject contextVars"
  shows "take (length h) (snd (run_st fuel J sw ag pm pc opts h)) = h \<and>
         snd (run_st fuel J sw ag pm pc opts h) ! pm = MessageArray msgs \<and>
         snd (run_st fuel J sw ag pm pc opts h) ! pc = VariablesObject contextVars \<and>
         fst (run_st fuel J sw ag pm pc opts h) = run fuel J sw ag msgs contextVars opts"
proof -
  have main: "take (length h) (snd (run_st fuel J sw ag pm pc opts h)) = h \<and>
         fst (run_st fuel J sw ag pm pc opts h) = run fuel J sw ag msgs contextVars opts"
  proof (cases "stream opts")
    case True
    obtain r h' where rs: "runStream_st sw ag pm pc opts h = (r, h')"
      by (cases "runStream_st sw ag pm pc opts h")
    with runStream_st_refines [OF assms, of sw ag opts] True show ?thesis
      by (simp add: run_st_def run_def)
  next
    case False
    have reads: "array_at h pm = msgs" "object_at h pc = contextVars"
      using assms by (simp_all add: array_at_def object_at_def)
    let ?h2 = "(h @ [VariablesObject (spread contextVars)]) @ [MessageArray msgs]"
    have pre: "Suc (length h) < length ?h2" "length h < length ?h2"
      "?h2 ! Suc (length h) = MessageArray msgs"
      "?h2 ! length h = VariablesObject (spread contextVars)"
      by (simp_all add: nth_append)
    have m: "array_at ?h2 pm = msgs"
      using assms(1) reads by (simp add: array_at_def nth_append)
    have st: "run_st fuel J sw ag pm pc opts h =
                run_loop_st fuel J sw opts (length msgs) ag (Suc (length h)) (length h) ?h2"
      using False reads assms(1) m by (simp add: run_st_def alloc_def)
    from run_loop_st_refines [OF pre, of fuel J sw opts "length msgs" ag]
    have len: "length ?h2 \<le> length (snd (run_st fuel J sw ag pm pc opts h))"
      and frame: "\<forall>i < length ?h2. i \<noteq> Suc (length h) \<longrightarrow> i \<noteq> length h \<longrightarrow>
                    snd (run_st fuel J sw ag pm pc opts h) ! i = ?h2 ! i"
      and res: "fst (run_st fuel J sw ag pm pc opts h) =
                  run_loop fuel J sw opts (length msgs) ag msgs (spread contextVars)"
      unfolding st by simp_all
    have "take (length h) (snd (run_st fuel J sw ag pm pc opts h)) = h"
    proof (rule nth_equalityI)
      show "length (take (length h) (snd (run_st fuel J sw ag pm pc opts h))) = length h"
        using len by simp
    next
      fix i assume "i < length (take (length h) (snd (run_st fuel J sw ag pm pc opts h)))"
      then have i: "i < length h" by simp
      with frame have "snd (run_st fuel J sw ag pm pc opts h) ! i = ?h2 ! i" by simp
      with i show "take (length h) (snd (run_st fuel J sw ag pm pc opts h)) ! i = h ! i"
        by (simp add: nth_append)
    qed
    with res False show ?thesis by (simp add: run_def)
  qed
  then have t: "take (length h) (snd (run_st fuel J sw ag pm pc opts h)) = h" by simp
  have "\<And>i. i < length h \<Longrightarrow> snd (run_st fuel J sw ag pm pc opts h) ! i = h ! i"
  proof -
    fix i assume i: "i < length h"
    then have "take (length h) (snd (run_st fuel J sw ag pm pc opts h)) ! i =
               snd (run_st fuel J sw ag pm pc opts h) ! i"
      by simp
    with t show "snd (run_st fuel J sw ag pm pc opts h) ! i = h ! i" by simp
  qed
  with assms main show ?thesis by simp
qed

theorem run_keeps_caller_inputs_witness:
  "(0::nat) < length [MessageArray [user_hi], VariablesObject [(''k'', JNum 1)]] \<and>
   (1::nat) < length [MessageArray [user_hi], VariablesObject [(''k'', JNum 1)]] \<and>
   [MessageArray [user_hi], VariablesObject [(''k'', JNum 1)]] ! 0 = MessageArray [user_hi] \<and>
   [MessageArray [user_hi], VariablesObject [(''k'', JNum 1)]] ! 1 =
     VariablesObject [(''k'', JNum 1)] \<and>
   writes note_tool (JObj [(''context_variables'', JObj [(''k'', JNum 1)])]) =
     [(''j'', Some (JNum 3))] \<and>
   snd (run_st 2 example_JSON
          (example_swarm (assistant_calls [tool_call ''c1'' ''note'' ''{}'']))
          agent_W 0 1 (example_options \<infinity>)
          [MessageArray [user_hi], VariablesObject [(''k'', JNum 1)]]) ! 0 =
     MessageArray [user_hi] \<and>
   snd (run_st 2 example_JSON
          (example_swarm (assistant_calls [tool_call ''c1'' ''note'' ''{}'']))
          agent_W 0 1 (example_options \<infinity>)
          [MessageArray [user_hi], VariablesObject [(''k'', JNum 1)]]) ! 1 =
     VariablesObject [(''k'', JNum 1)] \<and>
   snd (run_st 2 example_JSON
          (example_swarm (assistant_calls [tool_call ''c1'' ''note'' ''{}'']))
          agent_W 0 1 (example_options \<infinity>)
          [MessageArray [user_hi], VariablesObject [(''k'', JNum 1)]]) =
     [MessageArray [user_hi], VariablesObject [(''k'', JNum 1)],
      VariablesObject [(''k'', JNum 1), (''j'', JNum 3)],
      MessageArray
        [user_hi,
         \<lparr>role = Assistant, content = None, sender = Some ''W'', tool_call_id = None,
          tool_calls = Some [tool_call ''c1'' ''note'' ''{}'']\<rparr>,
         \<lparr>role = Tool, content = Some ''ok'', sender = None,
          tool_call_id = Some ''c1'', tool_calls = None\<rparr>,
         \<lparr>role = Assistant, content = Some ''hello'', sender = Some ''W'',
          tool_call_id = None, tool_calls = None\<rparr>],
      MessageArray
        [\<lparr>role = Tool, content = Some ''ok'', sender = None,
          tool_call_id = Some ''c1'', tool_calls = None\<rparr>],
      VariablesObject [(''k'', JNum 1)]] \<and>
   map_option (\<lambda>r. map_option contextVariables (data (fst r)))
     (fst (run_st 2 example_JSON
          (example_swarm (assistant_calls [tool_call ''c1'' ''note'' ''{}'']))
          agent_W 0 1 (example_options \<infinity>)
          [MessageArray [user_hi], VariablesObject [(''k'', JNum 1)]])) =
     Some (Some [(''k'', JNum 1), (''j'', JNum 3)]) \<and>
   returned_messages
     (fst (run_st 2 example_JSON
          (example_swarm (assistant_calls [tool_call ''c1'' ''note'' ''{}'']))
          agent_W 0 1 (example_options \<infinity>)
          [MessageArray [user_hi], VariablesObject [(''k'', JNum 1)]])) =
     Some [\<lparr>role = Assistant, content = None, sender = Some ''W'', tool_call_id = None,
            tool_calls = Some [tool_call ''c1'' ''note'' ''{}'']\<rparr>,
           \<lparr>role = Tool, content = Some ''ok'', sender = None,
            tool_call_id = Some ''c1'', tool_calls = None\<rparr>,
           \<lparr>role = Assistant, content = Some ''hello'', sender = Some ''W'',
            tool_call_id = None, tool_calls = None\<rparr>]"
proof -
  let ?sw = "example_swarm (assistant_calls [tool_call ''c1'' ''note'' ''{}''])"
  let ?h = "[MessageArray [user_hi], VariablesObject [(''k'', JNum 1)]]"
  have two: "(2::nat) = Suc (Suc 0)" by simp
  have st: "snd (run_st 2 example_JSON ?sw agent_W 0 1 (example_options \<infinity>) ?h) =
     [MessageArray [user_hi], VariablesObject [(''k'', JNum 1)],
      VariablesObject [(''k'', JNum 1), (''j'', JNum 3)],
      MessageArray
        [user_hi,
         \<lparr>role = Assistant, content = None, sender = Some ''W'', tool_call_id = None,
          tool_calls = Some [tool_call ''c1'' ''note'' ''{}'']\<rparr>,
         \<lparr>role = Tool, content = Some ''ok'', sender = None,
          tool_call_id = Some ''c1'', tool_calls = None\<rparr>,
         \<lparr>role = Assistant, content = Some ''hello'', sender = Some ''W'',
          tool_call_id = None, tool_calls = None\<rparr>],
      MessageArray
        [\<lparr>role = Tool, content = Some ''ok'', sender = None,
          tool_call_id = Some ''c1'', tool_calls = None\<rparr>],
      VariablesObject [(''k'', JNum 1)]]"
    by (simp add: example_defs engine_defs two run_st_def alloc_def turn_st_def dispatch_st_def
          handleToolCalls_st_def array_at_def object_at_def nth_append Let_def)
  have r: "run 2 example_JSON ?sw agent_W [user_hi] [(''k'', JNum 1)] (example_options \<infinity>) =
     Some (\<lparr>success = True,
            data = Some \<lparr>messages =
                           [\<lparr>role = Assistant, content = None, sender = Some ''W'',
                             tool_call_id = None,
                             tool_calls = Some [tool_call ''c1'' ''note'' ''{}'']\<rparr>,
                            \<lparr>role = Tool, content = Some ''ok'', sender = None,
                             tool_call_id = Some ''c1'', tool_calls = None\<rparr>,
                            \<lparr>role = Assistant, content = Some ''hello'', sender = Some ''W'',
                             tool_call_id = None, tool_calls = None\<rparr>],
                         agent = Some agent_W,
                         contextVariables = [(''k'', JNum 1), (''j'', JNum 3)]\<rparr>,
            error = None\<rparr>,
           [Requested (createParams agent_W [user_hi] None False),
            ToolInvoked ''note'' (JObj [(''context_variables'', JObj [(''k'', JNum 1)])]),
            Requested
              (createParams agent_W
                 [user_hi,
                  \<lparr>role = Assistant, content = None, sender = Some ''W'', tool_call_id = None,
                   tool_calls = Some [tool_call ''c1'' ''note'' ''{}'']\<rparr>,
                  \<lparr>role = Tool, content = Some ''ok'', sender = None,
                   tool_call_id = Some ''c1'', tool_calls = None\<rparr>]
                 None False)])"
    by (simp add: example_defs engine_defs two)
  have w: "writes note_tool (JObj [(''context_variables'', JObj [(''k'', JNum 1)])]) =
             [(''j'', Some (JNum 3))]"
    by (simp add: note_tool_def)
  note T = run_keeps_caller_inputs [of 0 ?h 1 "[user_hi]" "[(''k'', JNum 1)]" 2 example_JSON
             ?sw agent_W "example_options \<infinity>"]
  have T': "snd (run_st 2 example_JSON ?sw agent_W 0 1 (example_options \<infinity>) ?h) ! 0 =
              MessageArray [user_hi] \<and>
            snd (run_st 2 example_JSON ?sw agent_W 0 1 (example_options \<infinity>) ?h) ! 1 =
              VariablesObject [(''k'', JNum 1)] \<and>
            fst (run_st 2 example_JSON ?sw agent_W 0 1 (example_options \<infinity>) ?h) =
              run 2 example_JSON ?sw agent_W [user_hi] [(''k'', JNum 1)] (example_options \<infinity>)"
    using T by simp
  show ?thesis
    using T' st w by (simp add: r returned_messages_def)
qed

end
